theory Spec2Isabelle
  imports Complex_Main "HOL-Library.Multiset"
begin

section \<open>JavaScript numbers\<close>

text \<open>
  A JavaScript number is modelled as an exact real or one of the three special values
  of IEEE 754 that the arithmetic of \<^verbatim>\<open>cross_validate_gastrectomy.js\<close> can produce:
  \<^verbatim>\<open>NaN\<close> (from \<^verbatim>\<open>0/0\<close>) and the two infinities (from \<^verbatim>\<open>x/0\<close>).
  The operations of this section are exact; the rounding to binary64 that the arithmetic
  of \<^verbatim>\<open>calculateStats\<close> goes through is in the section on rounded arithmetic. Zero
  carries no sign (every divisor of the script is a sum or product of counts, hence never
  \<^verbatim>\<open>-0\<close>).
\<close>

datatype jsnum = Num real | PosInfinity | NegInfinity | NaN

fun jneg :: "jsnum \<Rightarrow> jsnum" where
  "jneg (Num a) = Num (- a)"
| "jneg PosInfinity = NegInfinity"
| "jneg NegInfinity = PosInfinity"
| "jneg NaN = NaN"

fun jadd :: "jsnum \<Rightarrow> jsnum \<Rightarrow> jsnum" where
  "jadd (Num a) (Num b) = Num (a + b)"
| "jadd NaN y = NaN"
| "jadd x NaN = NaN"
| "jadd PosInfinity NegInfinity = NaN"
| "jadd NegInfinity PosInfinity = NaN"
| "jadd PosInfinity y = PosInfinity"
| "jadd x PosInfinity = PosInfinity"
| "jadd NegInfinity y = NegInfinity"
| "jadd x NegInfinity = NegInfinity"

definition jsub :: "jsnum \<Rightarrow> jsnum \<Rightarrow> jsnum" where
  "jsub x y = jadd x (jneg y)"

text \<open>The sign of a number, for products and quotients with an infinity.\<close>

fun jsign :: "jsnum \<Rightarrow> int" where
  "jsign (Num a) = (if a < 0 then - 1 else if a = 0 then 0 else 1)"
| "jsign PosInfinity = 1"
| "jsign NegInfinity = - 1"
| "jsign NaN = 0"

definition jinf :: "int \<Rightarrow> jsnum" where
  "jinf s = (if s < 0 then NegInfinity else PosInfinity)"

fun jmul :: "jsnum \<Rightarrow> jsnum \<Rightarrow> jsnum" where
  "jmul (Num a) (Num b) = Num (a * b)"
| "jmul NaN y = NaN"
| "jmul x NaN = NaN"
| "jmul x y = (if jsign x * jsign y = 0 then NaN else jinf (jsign x * jsign y))"

fun jdiv :: "jsnum \<Rightarrow> jsnum \<Rightarrow> jsnum" where
  "jdiv (Num a) (Num b) =
     (if b \<noteq> 0 then Num (a / b)
      else if a = 0 then NaN
      else if 0 < a then PosInfinity else NegInfinity)"
| "jdiv NaN y = NaN"
| "jdiv x NaN = NaN"
| "jdiv (Num a) y = Num 0"
| "jdiv x (Num b) = (if b < 0 then jneg x else x)"
| "jdiv x y = NaN"

text \<open>\<^verbatim>\<open>x < y\<close>: false as soon as one side is \<^verbatim>\<open>NaN\<close>.\<close>

fun jless :: "jsnum \<Rightarrow> jsnum \<Rightarrow> bool" where
  "jless (Num a) (Num b) = (a < b)"
| "jless NaN y = False"
| "jless x NaN = False"
| "jless NegInfinity y = (y \<noteq> NegInfinity)"
| "jless x PosInfinity = (x \<noteq> PosInfinity)"
| "jless x y = False"

text \<open>\<^verbatim>\<open>x || 0\<close>: the falsy numbers are \<^verbatim>\<open>0\<close> and \<^verbatim>\<open>NaN\<close>.\<close>

definition jor0 :: "jsnum \<Rightarrow> jsnum" where
  "jor0 x = (if x = NaN \<or> x = Num 0 then Num 0 else x)"

definition jnat :: "nat \<Rightarrow> jsnum" where
  "jnat n = Num (real n)"

section \<open>Errors\<close>

text \<open>
  The script defines no exception of its own. What it can raise is a \<^verbatim>\<open>TypeError\<close>
  of the language (a read of \<^verbatim>\<open>labels[i][0]\<close> past the end of \<^verbatim>\<open>labels\<close>, a
  \<^verbatim>\<open>reduce\<close> of an empty array without initial value) and the error of
  \<^verbatim>\<open>tf.tensor2d\<close> on an array it cannot shape.
\<close>

datatype error = TypeError | TensorError

section \<open>evaluateFold: the metrics of one fold\<close>

record confusion =
  tp :: nat
  fp :: nat
  tn :: nat
  fn :: nat

record metrics =
  accuracy :: jsnum
  precision :: jsnum
  recall :: jsnum
  f1 :: jsnum
  specificity :: jsnum
  auc :: jsnum
  confusionMatrix :: confusion

text \<open>
  \<^verbatim>\<open>predictions.map(p => p[0] >= threshold ? 1 : 0)\<close> with \<^verbatim>\<open>threshold = 0.5\<close>.
  The one-column rows \<^verbatim>\<open>p[0]\<close> and \<^verbatim>\<open>labels[i][0]\<close> are modelled by their entry.
\<close>

definition binarize :: "real list \<Rightarrow> nat list" where
  "binarize predictions = map (\<lambda>p. if p \<ge> 0.5 then 1 else 0) predictions"

text \<open>The body of \<^verbatim>\<open>binary.forEach\<close>: four independent tests, in the source's order.\<close>

definition countStep :: "confusion \<Rightarrow> nat \<times> real \<Rightarrow> confusion" where
  "countStep c pa =
     (let pred = fst pa; actual = snd pa;
          c1 = (if pred = 1 \<and> actual = 1 then c\<lparr>tp := tp c + 1\<rparr> else c);
          c2 = (if pred = 1 \<and> actual = 0 then c1\<lparr>fp := fp c1 + 1\<rparr> else c1);
          c3 = (if pred = 0 \<and> actual = 0 then c2\<lparr>tn := tn c2 + 1\<rparr> else c2);
          c4 = (if pred = 0 \<and> actual = 1 then c3\<lparr>fn := fn c3 + 1\<rparr> else c3)
      in c4)"

definition confusionOf :: "real list \<Rightarrow> real list \<Rightarrow> confusion" where
  "confusionOf predictions labels =
     foldl countStep \<lparr>tp = 0, fp = 0, tn = 0, fn = 0\<rparr> (zip (binarize predictions) labels)"

text \<open>
  \<^verbatim>\<open>pairs = predictions.map(...).sort((a, b) => b.pred - a.pred)\<close>: the comparator is
  consistent, and \<^verbatim>\<open>Array.prototype.sort\<close> is stable (ECMAScript 2019), so the result
  is the stable sort by descending \<^verbatim>\<open>pred\<close>.
\<close>

definition sortedPairs :: "real list \<Rightarrow> real list \<Rightarrow> (real \<times> real) list" where
  "sortedPairs predictions labels = sort_key (\<lambda>pair. - fst pair) (zip predictions labels)"

text \<open>
  The body of \<^verbatim>\<open>pairs.forEach((pair, i) => ...)\<close> on the state
  \<^verbatim>\<open>(positives, negatives, sumRanks)\<close>.
\<close>

definition rankStep :: "nat \<times> nat \<times> nat \<Rightarrow> nat \<times> (real \<times> real) \<Rightarrow> nat \<times> nat \<times> nat" where
  "rankStep st ip =
     (case st of (positives, negatives, sumRanks) \<Rightarrow>
        if snd (snd ip) = 1 then (positives + 1, negatives, sumRanks + (fst ip + 1))
        else (positives, negatives + 1, sumRanks))"

definition rankSums :: "(real \<times> real) list \<Rightarrow> nat \<times> nat \<times> nat" where
  "rankSums pairs = foldl rankStep (0, 0, 0) (zip [0..<length pairs] pairs)"

definition aucOf :: "real list \<Rightarrow> real list \<Rightarrow> jsnum" where
  "aucOf predictions labels =
     (case rankSums (sortedPairs predictions labels) of (positives, negatives, sumRanks) \<Rightarrow>
        jdiv (jsub (jnat sumRanks) (jdiv (jmul (jnat positives) (jnat (positives + 1))) (Num 2)))
             (jmul (jnat positives) (jnat negatives)))"

text \<open>
  \<^verbatim>\<open>evaluateFold\<close> after \<^verbatim>\<open>model.predict\<close>: \<^verbatim>\<open>predictions\<close> are the predicted
  probabilities and \<^verbatim>\<open>labels\<close> the true labels of the test fold. Reading
  \<^verbatim>\<open>labels[i][0]\<close> for a prediction without label raises a \<^verbatim>\<open>TypeError\<close>; labels
  beyond the predictions are never read.
\<close>

definition evaluateFold :: "real list \<Rightarrow> real list \<Rightarrow> error + metrics" where
  "evaluateFold predictions labels =
     (if length labels < length predictions then Inl TypeError
      else
        let c = confusionOf predictions labels;
            accuracy' = jdiv (jnat (tp c + tn c)) (jnat (tp c + tn c + fp c + fn c));
            precision' = jor0 (jdiv (jnat (tp c)) (jnat (tp c + fp c)));
            recall' = jor0 (jdiv (jnat (tp c)) (jnat (tp c + fn c)));
            f1' = jor0 (jdiv (jmul (Num 2) (jmul precision' recall')) (jadd precision' recall'));
            specificity' = jor0 (jdiv (jnat (tn c)) (jnat (tn c + fp c)))
        in Inr \<lparr>accuracy = accuracy', precision = precision', recall = recall', f1 = f1',
                specificity = specificity', auc = aucOf predictions labels,
                confusionMatrix = c\<rparr>)"

section \<open>The JavaScript engine\<close>

text \<open>
  Two built-ins that \<^verbatim>\<open>shuffle\<close> calls are left to the JavaScript engine, whose code
  is not part of this repository, and are parameters of the model.

  \<^verbatim>\<open>Math.sin\<close> returns an approximation that the language leaves to the engine.

  \<^verbatim>\<open>Array.prototype.sort\<close> is called with a comparator that ignores the two elements
  it is given: it increments the closure variable \<^verbatim>\<open>currentSeed\<close> and answers
  \<^verbatim>\<open>rng(currentSeed) - 0.5\<close>. A comparator is therefore a state transformer, from the
  value of \<^verbatim>\<open>currentSeed\<close> and the two elements to its answer and the new value of
  \<^verbatim>\<open>currentSeed\<close>. With such an inconsistent comparator the order that \<^verbatim>\<open>sort\<close>
  produces is the engine's choice: \<open>array_sort\<close> runs a comparator from an initial state
  on an array and returns the rearranged array and the final state.
\<close>

type_synonym comparator = "real \<Rightarrow> nat \<Rightarrow> nat \<Rightarrow> real \<times> real"

record engine =
  math_sin :: "real \<Rightarrow> real"
  array_sort :: "comparator \<Rightarrow> real \<Rightarrow> nat list \<Rightarrow> nat list \<times> real"

text \<open>What the theorems below ask of an engine: its sort rearranges, it neither drops nor adds.\<close>

definition rearranges :: "engine \<Rightarrow> bool" where
  "rearranges e \<longleftrightarrow> (\<forall>cmp s xs. mset (fst (array_sort e cmp s xs)) = mset xs)"

text \<open>
  One engine, for concrete runs. Its sort is insertion sort, each element entered from the
  front of the part already sorted, before the first element the comparator does not put
  ahead of it. Its sine is Bhaskara's rational approximation, the argument reduced by the
  period \<open>710/113\<close>.
\<close>

fun insertBy :: "comparator \<Rightarrow> nat \<Rightarrow> nat list \<times> real \<Rightarrow> nat list \<times> real" where
  "insertBy cmp x ([], s) = ([x], s)"
| "insertBy cmp x (y # ys, s) =
     (case cmp s x y of (r, s') \<Rightarrow>
        if r \<le> 0 then (x # y # ys, s')
        else (case insertBy cmp x (ys, s') of (zs, s'') \<Rightarrow> (y # zs, s'')))"

fun insertionSort :: "comparator \<Rightarrow> real \<Rightarrow> nat list \<Rightarrow> nat list \<times> real" where
  "insertionSort cmp s [] = ([], s)"
| "insertionSort cmp s (x # xs) = insertBy cmp x (insertionSort cmp s xs)"

definition bhaskara :: "real \<Rightarrow> real" where
  "bhaskara x = 16 * x * (355 / 113 - x) / (5 * (355 / 113)\<^sup>2 - 4 * x * (355 / 113 - x))"

definition rationalSin :: "real \<Rightarrow> real" where
  "rationalSin x =
     (let r = x - (710 / 113) * of_int \<lfloor>x / (710 / 113)\<rfloor>
      in if r \<le> 355 / 113 then bhaskara r else - bhaskara (r - 355 / 113))"

definition referenceEngine :: engine where
  "referenceEngine = \<lparr>math_sin = rationalSin, array_sort = insertionSort\<rparr>"

section \<open>createStratifiedFolds\<close>

record cv_config =
  nFolds :: int
  stratified :: bool
  randomSeed :: real
  resultsPath :: string

definition CV_CONFIG :: cv_config where
  "CV_CONFIG = \<lparr>nFolds = 5, stratified = True, randomSeed = 42,
                 resultsPath = ''./results/cv_gastrectomy''\<rparr>"

record fold =
  indices :: "nat list"
  positive :: int
  negative :: int

text \<open>\<^verbatim>\<open>rng\<close>: the fractional part of \<^verbatim>\<open>Math.sin(s) * 10000\<close>.\<close>

definition rng :: "engine \<Rightarrow> real \<Rightarrow> real" where
  "rng e s = (let s' = math_sin e s * 10000 in s' - of_int \<lfloor>s'\<rfloor>)"

definition shuffleComparator :: "engine \<Rightarrow> comparator" where
  "shuffleComparator e currentSeed a b =
     (let currentSeed' = currentSeed + 1 in (rng e currentSeed' - 0.5, currentSeed'))"

text \<open>
  \<^verbatim>\<open>shuffle(arr, seed)\<close>: \<^verbatim>\<open>currentSeed\<close> starts at \<^verbatim>\<open>seed\<close> in every call and is
  dropped at its end.
\<close>

definition shuffle :: "engine \<Rightarrow> nat list \<Rightarrow> real \<Rightarrow> nat list" where
  "shuffle e arr seed = fst (array_sort e (shuffleComparator e) seed arr)"

text \<open>
  \<^verbatim>\<open>arr.slice(start, end)\<close> on integers: a negative bound counts from the end, and both
  bounds are clamped to the array.
\<close>

definition js_slice :: "'a list \<Rightarrow> int \<Rightarrow> int \<Rightarrow> 'a list" where
  "js_slice arr start end' =
     (let len = int (length arr);
          first = (if start < 0 then max (len + start) 0 else min start len);
          final = (if end' < 0 then max (len + end') 0 else min end' len)
      in take (nat (final - first)) (drop (nat first) arr))"

text \<open>The body of the loop \<^verbatim>\<open>for (let i = 0; i < k; i++)\<close>: fold \<open>i\<close>.\<close>

definition makeFold :: "nat list \<Rightarrow> nat list \<Rightarrow> int \<Rightarrow> int \<Rightarrow> int \<Rightarrow> int \<Rightarrow> fold" where
  "makeFold positiveIndices negativeIndices posPerFold negPerFold k i =
     (let posStart = i * posPerFold;
          negStart = i * negPerFold;
          posEnd = (if i = k - 1 then int (length positiveIndices) else (i + 1) * posPerFold);
          negEnd = (if i = k - 1 then int (length negativeIndices) else (i + 1) * negPerFold)
      in \<lparr>indices = js_slice positiveIndices posStart posEnd
                      @ js_slice negativeIndices negStart negEnd,
          positive = posEnd - posStart,
          negative = negEnd - negStart\<rparr>)"

text \<open>
  \<^verbatim>\<open>createStratifiedFolds(data, labels, k)\<close> for an integer \<open>k\<close>. The parameter
  \<^verbatim>\<open>data\<close> is never read and is left out. \<^verbatim>\<open>Math.floor(length / k)\<close> is the
  integer quotient; for \<open>k \<le> 0\<close> the loop does not run and the quotient is not used.
  The function has no check of \<open>k\<close> and no \<^verbatim>\<open>throw\<close>.
\<close>

definition createStratifiedFolds :: "engine \<Rightarrow> real list \<Rightarrow> int \<Rightarrow> fold list" where
  "createStratifiedFolds e labels k =
     (let positiveIndices0 = filter (\<lambda>idx. labels ! idx = 1) [0..<length labels];
          negativeIndices0 = filter (\<lambda>idx. labels ! idx \<noteq> 1) [0..<length labels];
          positiveIndices = shuffle e positiveIndices0 (randomSeed CV_CONFIG);
          negativeIndices = shuffle e negativeIndices0 (randomSeed CV_CONFIG + 1);
          posPerFold = int (length positiveIndices) div k;
          negPerFold = int (length negativeIndices) div k
      in map (makeFold positiveIndices negativeIndices posPerFold negPerFold k) [0..k - 1])"

section \<open>Rounded arithmetic\<close>

text \<open>
  \<^verbatim>\<open>calculateStats\<close> adds, subtracts and divides numbers that are no longer counts, and
  compares the result with the literal \<^verbatim>\<open>0.05\<close>: here the rounding of binary64
  decides on which side of the threshold a standard deviation falls. The number system is
  a parameter of the model:
  \<^item> \<open>nearest\<close> takes the exact result of \<^verbatim>\<open>+\<close>, \<^verbatim>\<open>-\<close>, \<^verbatim>\<open>/\<close> or the exact value
    of a decimal literal to the number that stands for it (an infinity on overflow);
  \<^item> \<open>math_pow2\<close> is \<^verbatim>\<open>Math.pow(x, 2)\<close> and \<open>math_sqrt\<close> is \<^verbatim>\<open>Math.sqrt(x)\<close> on a
    finite \<open>x\<close> (not negative for the root), both approximations that the language
    leaves to the engine.
  An array length is a small integer and enters as it is.
\<close>

record numerics =
  nearest :: "real \<Rightarrow> jsnum"
  math_pow2 :: "real \<Rightarrow> jsnum"
  math_sqrt :: "real \<Rightarrow> jsnum"

text \<open>A finite exact result is rounded; \<^verbatim>\<open>NaN\<close> and the infinities stay.\<close>

fun rounded :: "numerics \<Rightarrow> jsnum \<Rightarrow> jsnum" where
  "rounded \<nu> (Num a) = nearest \<nu> a"
| "rounded \<nu> x = x"

definition fadd :: "numerics \<Rightarrow> jsnum \<Rightarrow> jsnum \<Rightarrow> jsnum" where
  "fadd \<nu> x y = rounded \<nu> (jadd x y)"

definition fsub :: "numerics \<Rightarrow> jsnum \<Rightarrow> jsnum \<Rightarrow> jsnum" where
  "fsub \<nu> x y = rounded \<nu> (jsub x y)"

definition fdiv :: "numerics \<Rightarrow> jsnum \<Rightarrow> jsnum \<Rightarrow> jsnum" where
  "fdiv \<nu> x y = rounded \<nu> (jdiv x y)"

text \<open>\<^verbatim>\<open>Math.pow(x, 2)\<close> and \<^verbatim>\<open>Math.sqrt(x)\<close> on every number.\<close>

fun fpow2 :: "numerics \<Rightarrow> jsnum \<Rightarrow> jsnum" where
  "fpow2 \<nu> (Num a) = math_pow2 \<nu> a"
| "fpow2 \<nu> NaN = NaN"
| "fpow2 \<nu> x = PosInfinity"

fun fsqrt :: "numerics \<Rightarrow> jsnum \<Rightarrow> jsnum" where
  "fsqrt \<nu> (Num a) = (if a < 0 then NaN else math_sqrt \<nu> a)"
| "fsqrt \<nu> PosInfinity = PosInfinity"
| "fsqrt \<nu> x = NaN"

text \<open>The number system without rounding: every operation returns its exact result.\<close>

definition exactNumerics :: numerics where
  "exactNumerics = \<lparr>nearest = Num, math_pow2 = (\<lambda>x. Num (x\<^sup>2)), math_sqrt = (\<lambda>x. Num (sqrt x))\<rparr>"

section \<open>Aggregation and report\<close>

record stats =
  mean :: jsnum
  std :: jsnum
  values' :: "jsnum list"

text \<open>
  \<^verbatim>\<open>calculateStats(metric)\<close> over \<^verbatim>\<open>foldResults\<close>; the property read
  \<^verbatim>\<open>r[metric]\<close> is the selector \<open>metric\<close>. The first \<^verbatim>\<open>reduce\<close> has no initial
  value: it starts from the first element and raises a \<^verbatim>\<open>TypeError\<close> on an empty array.
  The field \<^verbatim>\<open>values\<close> is written \<open>values'\<close>.
\<close>

definition calculateStats ::
    "numerics \<Rightarrow> (metrics \<Rightarrow> jsnum) \<Rightarrow> metrics list \<Rightarrow> error + stats" where
  "calculateStats \<nu> metric foldResults =
     (let vals = map metric foldResults in
      case vals of
        [] \<Rightarrow> Inl TypeError
      | v # vs \<Rightarrow>
          let mean' = fdiv \<nu> (foldl (fadd \<nu>) v vs) (jnat (length vals));
              std' = fsqrt \<nu>
                       (fdiv \<nu> (foldl (\<lambda>a b. fadd \<nu> a (fpow2 \<nu> (fsub \<nu> b mean'))) (Num 0) vals)
                               (jnat (length vals)))
          in Inr \<lparr>mean = mean', std = std', values' = vals\<rparr>)"

text \<open>The keys of the object \<^verbatim>\<open>aggregated\<close>, in the order of the literal.\<close>

definition metricNames :: "(string \<times> (metrics \<Rightarrow> jsnum)) list" where
  "metricNames = [(''accuracy'', accuracy), (''precision'', precision), (''recall'', recall),
                  (''f1'', f1), (''specificity'', specificity), (''auc'', auc)]"

fun aggregate ::
    "numerics \<Rightarrow> (string \<times> (metrics \<Rightarrow> jsnum)) list \<Rightarrow> metrics list
       \<Rightarrow> error + (string \<times> stats) list" where
  "aggregate \<nu> [] foldResults = Inr []"
| "aggregate \<nu> ((name, metric) # rest) foldResults =
     (case calculateStats \<nu> metric foldResults of
        Inl err \<Rightarrow> Inl err
      | Inr s \<Rightarrow> (case aggregate \<nu> rest foldResults of
                    Inl err \<Rightarrow> Inl err
                  | Inr ss \<Rightarrow> Inr ((name, s) # ss)))"

text \<open>
  Step 6 of \<^verbatim>\<open>runCrossValidation\<close>: the verdict is one of two lines written to the
  console, chosen by \<^verbatim>\<open>aggregated.auc.std < 0.05\<close>, the literal being the number
  nearest to \<open>1/20\<close>.
\<close>

datatype verdict = STABLE | VARIABLE

definition stabilityVerdict :: "numerics \<Rightarrow> (string \<times> stats) list \<Rightarrow> error + verdict" where
  "stabilityVerdict \<nu> aggregated =
     (case map_of aggregated ''auc'' of
        None \<Rightarrow> Inl TypeError
      | Some s \<Rightarrow> Inr (if jless (std s) (nearest \<nu> (1 / 20)) then STABLE else VARIABLE))"

text \<open>Plain JavaScript values, for the object that \<^verbatim>\<open>runCrossValidation\<close> returns.\<close>

datatype jsval =
    JNumber jsnum
  | JString string
  | JBoolean bool
  | JArray "jsval list"
  | JObject "(string \<times> jsval) list"

fun objKeys :: "jsval \<Rightarrow> string list" where
  "objKeys (JObject kvs) = map fst kvs"
| "objKeys v = []"

fun objGet :: "string \<Rightarrow> jsval \<Rightarrow> jsval option" where
  "objGet key (JObject kvs) = map_of kvs key"
| "objGet key v = None"

definition configValue :: jsval where
  "configValue = JObject [(''nFolds'', JNumber (Num (of_int (nFolds CV_CONFIG)))),
                          (''stratified'', JBoolean (stratified CV_CONFIG)),
                          (''randomSeed'', JNumber (Num (randomSeed CV_CONFIG))),
                          (''resultsPath'', JString (resultsPath CV_CONFIG))]"

text \<open>The object literal that \<^verbatim>\<open>evaluateFold\<close> returns.\<close>

definition metricsValue :: "metrics \<Rightarrow> jsval" where
  "metricsValue m =
     JObject [(''accuracy'', JNumber (accuracy m)), (''precision'', JNumber (precision m)),
              (''recall'', JNumber (recall m)), (''f1'', JNumber (f1 m)),
              (''specificity'', JNumber (specificity m)), (''auc'', JNumber (auc m)),
              (''confusionMatrix'',
                 JObject [(''tp'', JNumber (jnat (tp (confusionMatrix m)))),
                          (''fp'', JNumber (jnat (fp (confusionMatrix m)))),
                          (''tn'', JNumber (jnat (tn (confusionMatrix m)))),
                          (''fn'', JNumber (jnat (fn (confusionMatrix m))))])]"

text \<open>
  Step 5: the literal \<^verbatim>\<open>report\<close>. Its \<^verbatim>\<open>aggregated\<close> is rebuilt from the entries of
  \<^verbatim>\<open>aggregated\<close> (distinct keys, so each assignment \<^verbatim>\<open>acc[key] = ...\<close> adds one
  entry), keeping \<^verbatim>\<open>mean\<close> and \<^verbatim>\<open>std\<close> of each. \<^verbatim>\<open>timestamp\<close> is the clock's
  \<^verbatim>\<open>new Date().toISOString()\<close>.
\<close>

definition assembleReport :: "string \<Rightarrow> metrics list \<Rightarrow> (string \<times> stats) list \<Rightarrow> jsval" where
  "assembleReport timestamp foldResults aggregated =
     JObject [(''config'', configValue),
              (''timestamp'', JString timestamp),
              (''folds'', JArray (map metricsValue foldResults)),
              (''aggregated'',
                 JObject (map (\<lambda>(key, val).
                                 (key, JObject [(''mean'', JNumber (mean val)),
                                                (''std'', JNumber (std val))]))
                              aggregated))]"

section \<open>runCrossValidation\<close>

text \<open>
  The dataset is the feature rows \<open>xs\<close> and the labels \<open>ys\<close> (the column
  \<^verbatim>\<open>l[0]\<close> of the label tensor). \<^verbatim>\<open>createModel\<close>, \<^verbatim>\<open>trainModel\<close> and
  \<^verbatim>\<open>model.predict\<close> are one parameter \<open>classifier\<close>: from the fold index, the
  training rows and labels and the test rows to the predicted probabilities; training is
  taken to complete. \<^verbatim>\<open>tf.tensor2d\<close> cannot infer a shape from an empty array, nor
  from a row that is \<^verbatim>\<open>undefined\<close>, and raises.
\<close>

type_synonym classifier = "nat \<Rightarrow> real list list \<Rightarrow> real list \<Rightarrow> real list list \<Rightarrow> real list"

record split =
  xTrain :: "real list list"
  yTrain :: "real list"
  xTest :: "real list list"
  yTest :: "real list"

definition splitByIndices ::
    "real list list \<Rightarrow> real list \<Rightarrow> nat list \<Rightarrow> nat list \<Rightarrow> error + split" where
  "splitByIndices xs ys trainIndices testIndices =
     (if trainIndices = [] \<or> testIndices = []
         \<or> (\<exists>i \<in> set (trainIndices @ testIndices). length xs \<le> i \<or> length ys \<le> i)
      then Inl TensorError
      else Inr \<lparr>xTrain = map (\<lambda>i. xs ! i) trainIndices,
                yTrain = map (\<lambda>i. ys ! i) trainIndices,
                xTest = map (\<lambda>i. xs ! i) testIndices,
                yTest = map (\<lambda>i. ys ! i) testIndices\<rparr>)"

text \<open>One round of the loop over \<^verbatim>\<open>foldIdx\<close>.\<close>

definition runFold ::
    "classifier \<Rightarrow> real list list \<Rightarrow> real list \<Rightarrow> fold list \<Rightarrow> nat \<Rightarrow> error + metrics" where
  "runFold classifier xs ys folds foldIdx =
     (let testIndices = indices (folds ! foldIdx);
          trainIndices = concat (map (\<lambda>i. indices (folds ! i))
                                     (filter (\<lambda>i. i \<noteq> foldIdx) [0..<length folds]))
      in case splitByIndices xs ys trainIndices testIndices of
           Inl e \<Rightarrow> Inl e
         | Inr sp \<Rightarrow>
             evaluateFold (classifier foldIdx (xTrain sp) (yTrain sp) (xTest sp)) (yTest sp))"

fun runFolds ::
    "classifier \<Rightarrow> real list list \<Rightarrow> real list \<Rightarrow> fold list \<Rightarrow> nat list \<Rightarrow> error + metrics list" where
  "runFolds classifier xs ys folds [] = Inr []"
| "runFolds classifier xs ys folds (foldIdx # rest) =
     (case runFold classifier xs ys folds foldIdx of
        Inl e \<Rightarrow> Inl e
      | Inr m \<Rightarrow> (case runFolds classifier xs ys folds rest of
                    Inl e \<Rightarrow> Inl e
                  | Inr ms \<Rightarrow> Inr (m # ms)))"

text \<open>
  What a run leaves behind: the returned \<^verbatim>\<open>report\<close> and the verdict line on the
  console. An \<open>Inl\<close> is the \<^verbatim>\<open>catch\<close> branch, which logs the error and exits with
  status 1.
\<close>

record outcome =
  report :: jsval
  printedVerdict :: verdict

definition runCrossValidation ::
    "engine \<Rightarrow> numerics \<Rightarrow> classifier \<Rightarrow> string \<Rightarrow> real list list \<Rightarrow> real list
       \<Rightarrow> error + outcome" where
  "runCrossValidation e \<nu> classifier timestamp xs ys =
     (let folds = createStratifiedFolds e ys (nFolds CV_CONFIG) in
      case runFolds classifier xs ys folds [0..<length folds] of
        Inl err \<Rightarrow> Inl err
      | Inr foldResults \<Rightarrow>
          (case aggregate \<nu> metricNames foldResults of
             Inl err \<Rightarrow> Inl err
           | Inr aggregated \<Rightarrow>
               (case stabilityVerdict \<nu> aggregated of
                  Inl err \<Rightarrow> Inl err
                | Inr v \<Rightarrow> Inr \<lparr>report = assembleReport timestamp foldResults aggregated,
                                printedVerdict = v\<rparr>)))"

section \<open>Notions used in the statements\<close>

text \<open>A label that the confusion matrix knows: exactly 0 or exactly 1.\<close>

definition binaryLabel :: "real \<Rightarrow> bool" where
  "binaryLabel l \<longleftrightarrow> l = 0 \<or> l = 1"

text \<open>The number of samples in a confusion matrix.\<close>

definition counted :: "confusion \<Rightarrow> nat" where
  "counted c = tp c + fp c + tn c + fn c"

text \<open>
  The slice of one class that fold \<open>i\<close> receives: the two operands of the spread in
  \<^verbatim>\<open>foldIndices\<close>.
\<close>

definition chunk :: "nat list \<Rightarrow> int \<Rightarrow> int \<Rightarrow> int \<Rightarrow> nat list" where
  "chunk arr perFold k i =
     js_slice arr (i * perFold) (if i = k - 1 then int (length arr) else (i + 1) * perFold)"

text \<open>
  The arithmetic mean and the population standard deviation of \<open>k\<close> numbers, the
  second dividing the sum of squared deviations by \<open>k\<close>.
\<close>

definition arithmeticMean :: "real list \<Rightarrow> real" where
  "arithmeticMean vs = sum_list vs / real (length vs)"

definition populationStd :: "real list \<Rightarrow> real" where
  "populationStd vs =
     sqrt (sum_list (map (\<lambda>v. (v - arithmeticMean vs)\<^sup>2) vs) / real (length vs))"

text \<open>
  The same two quantities as a program computes them in a number system \<open>\<nu>\<close>: the
  values are added from the first to the last, each sum rounded, and the total is divided
  by their number \<open>k\<close>; the squared deviations from that mean are added in the same
  order from 0, the total is divided by \<open>k\<close>, and the root is taken. \<open>sumUpTo\<close> and
  \<open>squaresUpTo\<close> take the values last first.
\<close>

fun sumUpTo :: "numerics \<Rightarrow> jsnum list \<Rightarrow> jsnum" where
  "sumUpTo \<nu> [] = Num 0"
| "sumUpTo \<nu> [v] = v"
| "sumUpTo \<nu> (v # w # ws) = fadd \<nu> (sumUpTo \<nu> (w # ws)) v"

definition roundedSum :: "numerics \<Rightarrow> jsnum list \<Rightarrow> jsnum" where
  "roundedSum \<nu> vs = sumUpTo \<nu> (rev vs)"

definition roundedMean :: "numerics \<Rightarrow> jsnum list \<Rightarrow> jsnum" where
  "roundedMean \<nu> vs = fdiv \<nu> (roundedSum \<nu> vs) (jnat (length vs))"

fun squaresUpTo :: "numerics \<Rightarrow> jsnum \<Rightarrow> jsnum list \<Rightarrow> jsnum" where
  "squaresUpTo \<nu> m [] = Num 0"
| "squaresUpTo \<nu> m (v # vs) = fadd \<nu> (squaresUpTo \<nu> m vs) (fpow2 \<nu> (fsub \<nu> v m))"

definition roundedPopulationStd :: "numerics \<Rightarrow> jsnum list \<Rightarrow> jsnum" where
  "roundedPopulationStd \<nu> vs =
     fsqrt \<nu> (fdiv \<nu> (squaresUpTo \<nu> (roundedMean \<nu> vs) (rev vs)) (jnat (length vs)))"

text \<open>The aggregated metric of the values \<open>vs\<close>: mean, standard deviation, the values.\<close>

definition aggregatedMetric :: "numerics \<Rightarrow> jsnum list \<Rightarrow> stats" where
  "aggregatedMetric \<nu> vs =
     \<lparr>mean = roundedMean \<nu> vs, std = roundedPopulationStd \<nu> vs, values' = vs\<rparr>"

text \<open>A fold result with a given AUC, for concrete aggregations.\<close>

definition foldWithAuc :: "real \<Rightarrow> metrics" where
  "foldWithAuc a = \<lparr>accuracy = Num 1, precision = Num 1, recall = Num 1, f1 = Num 1,
                     specificity = Num 1, auc = Num a,
                     confusionMatrix = \<lparr>tp = 1, fp = 0, tn = 1, fn = 0\<rparr>\<rparr>"

text \<open>The folds of a run: those of the labels for \<^verbatim>\<open>CV_CONFIG.nFolds\<close>.\<close>

definition foldsOfRun :: "engine \<Rightarrow> real list \<Rightarrow> fold list" where
  "foldsOfRun e ys = createStratifiedFolds e ys (nFolds CV_CONFIG)"

text \<open>The indices of all folds but fold \<open>i\<close>, in fold order: the training set of fold \<open>i\<close>.\<close>

definition othersOf :: "fold list \<Rightarrow> nat \<Rightarrow> nat list" where
  "othersOf folds i = concat (map indices (take i folds @ drop (Suc i) folds))"

text \<open>The true labels of the test set of fold \<open>i\<close>.\<close>

definition testLabels :: "real list \<Rightarrow> fold list \<Rightarrow> nat \<Rightarrow> real list" where
  "testLabels ys folds i = map (\<lambda>j. ys ! j) (indices (folds ! i))"

text \<open>
  The result of fold \<open>i\<close> held out: the classifier is given the rows and labels of the
  other folds and the rows of fold \<open>i\<close>, and its predictions are evaluated against the
  labels of fold \<open>i\<close>.
\<close>

definition heldOut ::
    "classifier \<Rightarrow> real list list \<Rightarrow> real list \<Rightarrow> fold list \<Rightarrow> nat \<Rightarrow> error + metrics" where
  "heldOut classifier xs ys folds i =
     evaluateFold
       (classifier i (map (\<lambda>j. xs ! j) (othersOf folds i)) (map (\<lambda>j. ys ! j) (othersOf folds i))
                     (map (\<lambda>j. xs ! j) (indices (folds ! i))))
       (testLabels ys folds i)"

text \<open>Labels that lack one of the two classes: no label is 1, or every label is 1.\<close>

definition lacksClass :: "real list \<Rightarrow> bool" where
  "lacksClass labels \<longleftrightarrow> 1 \<notin> set labels \<or> set labels \<subseteq> {1}"

text \<open>A classifier that answers with one prediction for each test row.\<close>

definition onePredictionPerRow :: "classifier \<Rightarrow> bool" where
  "onePredictionPerRow classifier \<longleftrightarrow>
     (\<forall>foldIdx rows labels test. length (classifier foldIdx rows labels test) = length test)"

section \<open>Data for concrete runs\<close>

text \<open>
  A classifier that learns nothing: it predicts the first feature of each test row
  (\<open>0.5\<close> for a row without features).
\<close>

definition firstFeature :: classifier where
  "firstFeature foldIdx xTrain' yTrain' xTest' =
     map (\<lambda>row. case row of [] \<Rightarrow> 0.5 | p # rest \<Rightarrow> p) xTest'"

text \<open>The fold result of one negative sample predicted negative.\<close>

definition allNegativeResult :: metrics where
  "allNegativeResult = \<lparr>accuracy = Num 1, precision = Num 0, recall = Num 0, f1 = Num 0,
          specificity = Num 1, auc = NaN,
          confusionMatrix = \<lparr>tp = 0, fp = 0, tn = 1, fn = 0\<rparr>\<rparr>"

text \<open>
  The fold result of one positive and one negative sample, each predicted as its class,
  and the aggregation of five such results.
\<close>

definition balancedResult :: metrics where
  "balancedResult = \<lparr>accuracy = Num 1, precision = Num 1, recall = Num 1, f1 = Num 1,
          specificity = Num 1, auc = Num 0,
          confusionMatrix = \<lparr>tp = 1, fp = 0, tn = 1, fn = 0\<rparr>\<rparr>"

definition balancedAggregated :: "(string \<times> stats) list" where
  "balancedAggregated =
     [(''accuracy'', \<lparr>mean = Num 1, std = Num 0, values' = replicate 5 (Num 1)\<rparr>),
      (''precision'', \<lparr>mean = Num 1, std = Num 0, values' = replicate 5 (Num 1)\<rparr>),
      (''recall'', \<lparr>mean = Num 1, std = Num 0, values' = replicate 5 (Num 1)\<rparr>),
      (''f1'', \<lparr>mean = Num 1, std = Num 0, values' = replicate 5 (Num 1)\<rparr>),
      (''specificity'', \<lparr>mean = Num 1, std = Num 0, values' = replicate 5 (Num 1)\<rparr>),
      (''auc'', \<lparr>mean = Num 0, std = Num 0, values' = replicate 5 (Num 0)\<rparr>)]"

section \<open>The two worked examples of the specification\<close>

lemmas evaluateFold_unfold =
  evaluateFold_def confusionOf_def binarize_def countStep_def aucOf_def sortedPairs_def
  rankSums_def rankStep_def jnat_def jor0_def jsub_def Let_def upt_rec

text \<open>
  Claim C1. On the predictions \<open>[0.9, 0.8, 0.1, 0.2]\<close> with the labels \<open>[1, 1, 0, 0]\<close>,
  a perfect ranking, the specification expects \<open>tp = 2\<close>, \<open>fp = 0\<close>, \<open>tn = 2\<close>,
  \<open>fn = 0\<close>, accuracy, precision, recall and f1 equal to 1, and an AUC of 1. The code
  returns all of these but the AUC, which it computes as 0: the pairs are sorted by
  descending prediction, the two positives take the ranks 1 and 2, and their rank sum 3
  less \<open>P(P+1)/2 = 3\<close> is 0.
\<close>

theorem evaluateFold_perfect_ranking:
  "evaluateFold [0.9, 0.8, 0.1, 0.2] [1, 1, 0, 0] =
     Inr \<lparr>accuracy = Num 1, precision = Num 1, recall = Num 1, f1 = Num 1,
          specificity = Num 1, auc = Num 0,
          confusionMatrix = \<lparr>tp = 2, fp = 0, tn = 2, fn = 0\<rparr>\<rparr>"
  by (simp add: evaluateFold_unfold)

text \<open>
  Claim C2. On four predictions all equal to \<open>0.5\<close> with the labels \<open>[1, 0, 1, 0]\<close> the
  specification expects \<open>tp = 2\<close>, \<open>fp = 2\<close>, \<open>tn = 0\<close>, \<open>fn = 0\<close>, precision
  \<open>0.5\<close>, recall 1 and the chance-level AUC \<open>0.5\<close>. The code returns the counts,
  precision and recall, and the AUC \<open>0.25\<close>: tied predictions keep their input order and
  take the distinct ranks 1 to 4, so the positives have the ranks 1 and 3.
\<close>

theorem evaluateFold_all_tied:
  "evaluateFold [0.5, 0.5, 0.5, 0.5] [1, 0, 1, 0] =
     Inr \<lparr>accuracy = Num (1 / 2), precision = Num (1 / 2), recall = Num 1, f1 = Num (2 / 3),
          specificity = Num 0, auc = Num (1 / 4),
          confusionMatrix = \<lparr>tp = 2, fp = 2, tn = 0, fn = 0\<rparr>\<rparr>"
  by (simp add: evaluateFold_unfold)

section \<open>The confusion matrix and labels other than 0 and 1\<close>

lemma countStep_other: "\<not> binaryLabel l \<Longrightarrow> countStep c (p, l) = c"
  by (simp add: countStep_def binaryLabel_def)

lemma countStep_counted:
  "p = 0 \<or> p = 1 \<Longrightarrow>
   counted (countStep c (p, l)) = counted c + (if binaryLabel l then 1 else 0)"
  by (auto simp add: countStep_def binaryLabel_def counted_def)

lemma foldl_countStep_counted:
  "\<forall>z \<in> set zs. fst z = 0 \<or> fst z = 1 \<Longrightarrow>
   counted (foldl countStep c zs) = counted c + length (filter (\<lambda>z. binaryLabel (snd z)) zs)"
proof (induction zs arbitrary: c)
  case Nil
  then show ?case by simp
next
  case (Cons z zs)
  obtain p l where z: "z = (p, l)" by (cases z)
  from Cons.prems have p: "p = 0 \<or> p = 1" by (simp add: z)
  from Cons.prems have rest: "\<forall>z \<in> set zs. fst z = 0 \<or> fst z = 1" by simp
  show ?case
    using Cons.IH [OF rest, of "countStep c (p, l)"] countStep_counted [OF p, of c l]
    by (simp add: z)
qed

lemma foldl_countStep_filter:
  "foldl countStep c (filter (\<lambda>z. binaryLabel (snd z)) zs) = foldl countStep c zs"
proof (induction zs arbitrary: c)
  case Nil
  then show ?case by simp
next
  case (Cons z zs)
  then show ?case by (cases z) (simp add: countStep_other)
qed

lemma binarize_range: "\<forall>z \<in> set (zip (binarize ps) ls). fst z = 0 \<or> fst z = 1"
  by (auto simp add: binarize_def dest!: set_zip_leftD)

lemma zip_binarize_filter:
  "zip (binarize (map fst (filter (\<lambda>z. binaryLabel (snd z)) (zip ps ls))))
       (map snd (filter (\<lambda>z. binaryLabel (snd z)) (zip ps ls)))
   = filter (\<lambda>z. binaryLabel (snd z)) (zip (binarize ps) ls)"
proof (induction ps arbitrary: ls)
  case Nil
  then show ?case by (simp add: binarize_def)
next
  case (Cons p ps)
  then show ?case by (cases ls) (simp_all add: binarize_def)
qed

lemma length_filter_zip_snd:
  "length ls = length ps \<Longrightarrow>
   length (filter (\<lambda>z. P (snd z)) (zip ps ls)) = length (filter P ls)"
proof (induction ps arbitrary: ls)
  case Nil
  then show ?case by simp
next
  case (Cons p ps)
  then show ?case by (cases ls) simp_all
qed

text \<open>
  Claim C10. When every prediction has its label, \<^verbatim>\<open>evaluateFold\<close> returns, and a sample
  whose label is neither 0 nor 1 is counted in none of \<open>tp\<close>, \<open>fp\<close>, \<open>tn\<close>, \<open>fn\<close>:
  the four counts add up to the number of labels that are 0 or 1, this number is the
  denominator of the accuracy, and the confusion matrix is the one of the input with the
  other samples removed.
\<close>

theorem evaluateFold_other_labels_uncounted:
  assumes "length labels = length predictions"
  shows "\<exists>m. evaluateFold predictions labels = Inr m
           \<and> counted (confusionMatrix m) = length (filter binaryLabel labels)
           \<and> accuracy m = jdiv (jnat (tp (confusionMatrix m) + tn (confusionMatrix m)))
                                (jnat (length (filter binaryLabel labels)))
           \<and> confusionMatrix m =
               confusionOf
                 (map fst (filter (\<lambda>z. binaryLabel (snd z)) (zip predictions labels)))
                 (map snd (filter (\<lambda>z. binaryLabel (snd z)) (zip predictions labels)))"
proof -
  let ?c = "confusionOf predictions labels"
  have n: "counted ?c = length (filter binaryLabel labels)"
    unfolding confusionOf_def
    using foldl_countStep_counted [OF binarize_range [of predictions labels]]
      length_filter_zip_snd [of labels "binarize predictions" binaryLabel] assms
    by (simp add: counted_def binarize_def)
  have k: "?c = confusionOf
                  (map fst (filter (\<lambda>z. binaryLabel (snd z)) (zip predictions labels)))
                  (map snd (filter (\<lambda>z. binaryLabel (snd z)) (zip predictions labels)))"
    unfolding confusionOf_def by (simp only: zip_binarize_filter foldl_countStep_filter)
  have a: "tp ?c + tn ?c + fp ?c + fn ?c = length (filter binaryLabel labels)"
    using n by (simp add: counted_def)
  show ?thesis
    using assms n k a by (simp add: evaluateFold_def Let_def)
qed

text \<open>Three samples, the second with the label 2: two are counted, and the accuracy is 1/2.\<close>

theorem evaluateFold_other_labels_uncounted_witness:
  "evaluateFold [0.9, 0.2, 0.7] [1, 2, 0] =
     Inr \<lparr>accuracy = Num (1 / 2), precision = Num (1 / 2), recall = Num 1, f1 = Num (2 / 3),
          specificity = Num 0, auc = Num 0,
          confusionMatrix = \<lparr>tp = 1, fp = 1, tn = 0, fn = 0\<rparr>\<rparr>
   \<and> counted \<lparr>tp = 1, fp = 1, tn = 0, fn = 0\<rparr> = length (filter binaryLabel [1, 2, 0 :: real])"
  using evaluateFold_other_labels_uncounted [of "[1, 2, 0]" "[0.9, 0.2, 0.7]"]
  by (simp add: evaluateFold_unfold counted_def binaryLabel_def)

section \<open>The AUC under a change of scale\<close>

lemma insort_key_map_order:
  assumes "\<And>x y. (k' (g x) \<le> k' (g y)) = (k x \<le> k y)"
  shows "insort_key k' (g x) (map g xs) = map g (insort_key k x xs)"
  by (induction xs) (simp_all add: assms)

lemma sort_key_map_order:
  assumes "\<And>x y. (k' (g x) \<le> k' (g y)) = (k x \<le> k y)"
  shows "sort_key k' (map g xs) = map g (sort_key k xs)"
  by (induction xs) (simp_all add: insort_key_map_order [of k' g k, OF assms])

lemma sortedPairs_strict_mono:
  assumes "strict_mono f"
  shows "sortedPairs (map f predictions) labels = map (apfst f) (sortedPairs predictions labels)"
proof -
  have z: "zip (map f predictions) labels = map (apfst f) (zip predictions labels)"
    by (simp add: zip_map1 apfst_def map_prod_def)
  have o: "\<And>x y :: real \<times> real.
             (- fst (apfst f x) \<le> - fst (apfst f y)) = (- fst x \<le> - fst y)"
    using assms by (simp add: strict_mono_less_eq)
  show ?thesis
    unfolding sortedPairs_def z
    by (rule sort_key_map_order) (rule o)
qed

lemma rankStep_apfst: "rankStep st (i, apfst f p) = rankStep st (i, p)"
  by (cases st) (simp add: rankStep_def)

lemma rankStep_fst:
  "fst (rankStep (p, n, s) (i, z)) = p + (if snd z = 1 then 1 else 0)"
  "fst (snd (rankStep (p, n, s) (i, z))) = n + (if snd z = 1 then 0 else 1)"
  by (simp_all add: rankStep_def)

lemma foldl_rankStep_apfst:
  "foldl rankStep st (zip is (map (apfst f) pairs)) = foldl rankStep st (zip is pairs)"
proof (induction pairs arbitrary: "is" st)
  case Nil
  then show ?case by simp
next
  case (Cons p pairs)
  then show ?case by (cases "is") (simp_all add: rankStep_apfst)
qed

lemma rankSums_apfst: "rankSums (map (apfst f) pairs) = rankSums pairs"
  by (simp add: rankSums_def foldl_rankStep_apfst)

lemma aucOf_strict_mono:
  "strict_mono f \<Longrightarrow> aucOf (map f predictions) labels = aucOf predictions labels"
  by (simp add: aucOf_def sortedPairs_strict_mono rankSums_apfst)

text \<open>The loop counts the labels equal to 1 as positives and all others as negatives.\<close>

lemma foldl_rankStep_counts:
  "length is = length pairs \<Longrightarrow>
   fst (foldl rankStep (p, n, s) (zip is pairs)) = p + length (filter (\<lambda>z. snd z = 1) pairs)
   \<and> fst (snd (foldl rankStep (p, n, s) (zip is pairs)))
       = n + length (filter (\<lambda>z. snd z \<noteq> 1) pairs)"
proof (induction pairs arbitrary: "is" p n s)
  case Nil
  then show ?case by simp
next
  case (Cons z pairs)
  then obtain i js where i: "is = i # js" and l: "length js = length pairs"
    by (cases "is") auto
  obtain p' n' s' where st: "rankStep (p, n, s) (i, z) = (p', n', s')"
    by (cases "rankStep (p, n, s) (i, z)")
  have "p' = p + (if snd z = 1 then 1 else 0)" "n' = n + (if snd z = 1 then 0 else 1)"
    using rankStep_fst [of p n s i z] by (simp_all add: st)
  then show ?case
    using Cons.IH [OF l, of p' n' s'] by (simp add: i st)
qed

lemma rankSums_counts:
  "\<exists>s. rankSums pairs = (length (filter (\<lambda>z. snd z = 1) pairs),
                          length (filter (\<lambda>z. snd z \<noteq> 1) pairs), s)"
proof -
  obtain p n s where r: "rankSums pairs = (p, n, s)" by (cases "rankSums pairs")
  have "length [0..<length pairs] = length pairs" by simp
  from foldl_rankStep_counts [OF this, of 0 0 0] r show ?thesis
    by (simp add: rankSums_def)
qed

lemma length_filter_sort_key: "length (filter P (sort_key k xs)) = length (filter P xs)"
proof -
  have "mset (filter P (sort_key k xs)) = mset (filter P xs)" by simp
  then show ?thesis by (metis size_mset)
qed

lemma sortedPairs_counts:
  assumes "length labels = length predictions"
  shows "length (filter (\<lambda>z. snd z = 1) (sortedPairs predictions labels))
           = length (filter (\<lambda>l. l = 1) labels)"
    and "length (filter (\<lambda>z. snd z \<noteq> 1) (sortedPairs predictions labels))
           = length (filter (\<lambda>l. l \<noteq> 1) labels)"
  using length_filter_zip_snd [OF assms, of "\<lambda>l. l = 1"]
    length_filter_zip_snd [OF assms, of "\<lambda>l. l \<noteq> 1"]
  by (simp_all add: sortedPairs_def length_filter_sort_key)

lemma aucOf_finite:
  assumes "length labels = length predictions" "1 \<in> set labels" "0 \<in> set labels"
  shows "\<exists>a. aucOf predictions labels = Num a"
proof -
  let ?P = "length (filter (\<lambda>l. l = 1) labels)"
  let ?N = "length (filter (\<lambda>l. l \<noteq> 1) labels)"
  obtain s where r: "rankSums (sortedPairs predictions labels) = (?P, ?N, s)"
    using rankSums_counts [of "sortedPairs predictions labels"] sortedPairs_counts [OF assms(1)]
    by auto
  have "1 \<in> set (filter (\<lambda>l. l = 1) labels)" using assms(2) by simp
  then have p: "0 < ?P" by (rule length_pos_if_in_set)
  have "0 \<in> set (filter (\<lambda>l. l \<noteq> 1) labels)" using assms(3) by simp
  then have n: "0 < ?N" by (rule length_pos_if_in_set)
  show ?thesis using p n by (simp add: aucOf_def r jnat_def jsub_def)
qed

text \<open>
  Claim C8. Where the AUC is defined (every prediction has its label, and the labels hold
  at least one positive and one negative), \<^verbatim>\<open>evaluateFold\<close> returns the same finite AUC
  on the scores \<open>f p\<close> as on the scores \<open>p\<close>, for every strictly monotonic
  (order-preserving) \<open>f\<close>.
\<close>

theorem auc_invariant_under_strict_mono:
  assumes "strict_mono f" and "length labels = length predictions"
    and "1 \<in> set labels" and "0 \<in> set labels"
  shows "\<exists>m m' a. evaluateFold predictions labels = Inr m
                 \<and> evaluateFold (map f predictions) labels = Inr m'
                 \<and> auc m = Num a \<and> auc m' = Num a"
  using assms aucOf_finite [OF assms(2,3,4)] aucOf_strict_mono [OF assms(1), of predictions labels]
  by (auto simp add: evaluateFold_def Let_def)

text \<open>Halving the scores of three samples, two of them positive.\<close>

theorem auc_invariant_under_strict_mono_witness:
  "strict_mono (\<lambda>x :: real. x / 2)
   \<and> (\<exists>m m' a. evaluateFold [0.9, 0.2, 0.6] [0, 1, 1] = Inr m
                 \<and> evaluateFold (map (\<lambda>x. x / 2) [0.9, 0.2, 0.6]) [0, 1, 1] = Inr m'
                 \<and> auc m = Num a \<and> auc m' = Num a)"
proof -
  have s: "strict_mono (\<lambda>x :: real. x / 2)" by (simp add: strict_mono_def)
  show ?thesis
    using s auc_invariant_under_strict_mono [OF s, of "[0, 1, 1]" "[0.9, 0.2, 0.6]"] by simp
qed

section \<open>The folds partition the indices\<close>

lemma js_slice_nat: "js_slice xs (int a) (int b) = take (b - a) (drop a xs)"
proof (cases "a \<le> length xs")
  case True
  have "take (min b (length xs) - a) (drop a xs) = take (b - a) (drop a xs)"
    by (cases "b \<le> length xs") (simp_all add: min_def)
  with True show ?thesis
    by (simp add: js_slice_def Let_def min_def nat_diff_distrib')
next
  case False
  then show ?thesis by (simp add: js_slice_def Let_def min_def)
qed

lemma concat_chunks: "concat (map (\<lambda>i. take q (drop (i * q) xs)) [0..<m]) = take (m * q) xs"
proof (induction m)
  case 0
  then show ?case by simp
next
  case (Suc m)
  have "take (m * q + q) xs = take (m * q) xs @ take q (drop (m * q) xs)"
    by (rule take_add)
  with Suc show ?case by (simp add: add.commute)
qed

lemma upto_as_upt: "[0..int n - 1] = map int [0..<n]"
proof (induction n)
  case 0
  then show ?case by simp
next
  case (Suc n)
  have "[0..int (Suc n) - 1] = [0..int n - 1] @ [int n]"
    using upto_rec2 [of 0 "int n"] by simp
  with Suc show ?case by simp
qed

lemma concat_chunk:
  assumes "1 \<le> k"
  shows "concat (map (chunk arr (int (length arr) div k) k) [0..k - 1]) = arr"
proof -
  define m where "m = nat (k - 1)"
  have k: "k = int (Suc m)" using assms by (simp add: m_def)
  let ?q = "length arr div Suc m"
  have q: "int (length arr) div k = int ?q" by (simp add: k zdiv_int)
  have inner: "chunk arr (int ?q) k (int i) = take ?q (drop (i * ?q) arr)" if "i < m" for i
  proof -
    have "chunk arr (int ?q) k (int i) = js_slice arr (int (i * ?q)) (int ((i + 1) * ?q))"
      using that by (simp add: chunk_def k algebra_simps)
    also have "\<dots> = take ((i + 1) * ?q - i * ?q) (drop (i * ?q) arr)"
      by (rule js_slice_nat)
    finally show ?thesis by simp
  qed
  have last: "chunk arr (int ?q) k (int m) = drop (m * ?q) arr"
  proof -
    have "chunk arr (int ?q) k (int m) = js_slice arr (int (m * ?q)) (int (length arr))"
      by (simp add: chunk_def k)
    also have "\<dots> = take (length arr - m * ?q) (drop (m * ?q) arr)"
      by (rule js_slice_nat)
    finally show ?thesis by simp
  qed
  have "[0..k - 1] = map int [0..<Suc m]"
    using upto_as_upt [of "Suc m"] by (simp add: k)
  then have "concat (map (chunk arr (int ?q) k) [0..k - 1])
      = concat (map (\<lambda>i. chunk arr (int ?q) k (int i)) [0..<m]) @ chunk arr (int ?q) k (int m)"
    by (simp add: comp_def)
  also have "concat (map (\<lambda>i. chunk arr (int ?q) k (int i)) [0..<m])
      = concat (map (\<lambda>i. take ?q (drop (i * ?q) arr)) [0..<m])"
    by (rule arg_cong [where f = concat]) (simp add: inner)
  finally show ?thesis
    by (simp add: q concat_chunks last)
qed

lemma distinct_concat_nth_disjoint:
  "distinct (concat xss) \<Longrightarrow> i < length xss \<Longrightarrow> j < length xss \<Longrightarrow> i \<noteq> j \<Longrightarrow>
   set (xss ! i) \<inter> set (xss ! j) = {}"
proof (induction xss arbitrary: i j)
  case Nil
  then show ?case by simp
next
  case (Cons xs xss)
  from Cons.prems(1) have d: "distinct (concat xss)"
    and x: "set xs \<inter> set (concat xss) = {}" by simp_all
  have sub: "set (xss ! n) \<subseteq> set (concat xss)" if "n < length xss" for n
  proof -
    from that have "xss ! n \<in> set xss" by (rule nth_mem)
    then show ?thesis by auto
  qed
  show ?case
  proof (cases i)
    case 0
    then obtain j' where j: "j = Suc j'" using Cons.prems(4) by (cases j) auto
    with Cons.prems(3) have "j' < length xss" by simp
    from sub [OF this] x show ?thesis by (auto simp add: 0 j)
  next
    case (Suc i')
    with Cons.prems(2) have i': "i' < length xss" by simp
    show ?thesis
    proof (cases j)
      case 0
      from sub [OF i'] x show ?thesis by (auto simp add: 0 Suc)
    next
      case (Suc j')
      with Cons.prems(3) have j': "j' < length xss" by simp
      from Cons.prems(4) have "i' \<noteq> j'" by (simp add: Suc \<open>i = Suc i'\<close>)
      from Cons.IH [OF d i' j' this] show ?thesis by (simp add: Suc \<open>i = Suc i'\<close>)
    qed
  qed
qed

lemma mset_concat_append:
  "mset (concat (map (\<lambda>i. f i @ g i) is)) = mset (concat (map f is)) + mset (concat (map g is))"
  by (induction "is") simp_all

lemma mset_filter_partition:
  "mset (filter P xs) + mset (filter (\<lambda>x. \<not> P x) xs) = mset xs"
  by (induction xs) simp_all

lemma indices_makeFold:
  "indices (makeFold pos neg ppf npf k i) = chunk pos ppf k i @ chunk neg npf k i"
  by (simp add: makeFold_def chunk_def Let_def)

lemma mset_shuffle: "rearranges e \<Longrightarrow> mset (shuffle e arr seed) = mset arr"
  by (simp add: rearranges_def shuffle_def)

lemma length_shuffle: "rearranges e \<Longrightarrow> length (shuffle e arr seed) = length arr"
  using mset_shuffle [of e arr seed] by (metis size_mset)

lemma length_createStratifiedFolds: "length (createStratifiedFolds e labels k) = nat k"
  by (simp add: createStratifiedFolds_def Let_def)

lemma mset_indices_createStratifiedFolds:
  assumes "rearranges e" and "1 \<le> k"
  shows "mset (concat (map indices (createStratifiedFolds e labels k))) = mset [0..<length labels]"
proof -
  let ?posI = "filter (\<lambda>idx. labels ! idx = 1) [0..<length labels]"
  let ?negI = "filter (\<lambda>idx. labels ! idx \<noteq> 1) [0..<length labels]"
  let ?pos = "shuffle e ?posI (randomSeed CV_CONFIG)"
  let ?neg = "shuffle e ?negI (randomSeed CV_CONFIG + 1)"
  let ?ppf = "int (length ?pos) div k"
  let ?npf = "int (length ?neg) div k"
  have "map indices (createStratifiedFolds e labels k)
      = map (\<lambda>i. chunk ?pos ?ppf k i @ chunk ?neg ?npf k i) [0..k - 1]"
    by (simp add: createStratifiedFolds_def Let_def indices_makeFold comp_def)
  then have "mset (concat (map indices (createStratifiedFolds e labels k)))
      = mset (concat (map (chunk ?pos ?ppf k) [0..k - 1]))
        + mset (concat (map (chunk ?neg ?npf k) [0..k - 1]))"
    by (simp only: mset_concat_append)
  also have "\<dots> = mset ?pos + mset ?neg"
    by (simp only: concat_chunk [OF assms(2)])
  also have "mset ?pos + mset ?neg = mset ?posI + mset ?negI"
    by (simp only: mset_shuffle [OF assms(1)])
  also have "mset ?posI + mset ?negI = mset [0..<length labels]"
    by (rule mset_filter_partition)
  finally show ?thesis .
qed

text \<open>
  Claim C5. On an engine whose sort rearranges, for every \<open>k \<ge> 2\<close> and every label
  sequence with at least \<open>k\<close> positives (labels equal to 1) and at least \<open>k\<close> negatives
  (all other labels), \<^verbatim>\<open>createStratifiedFolds\<close> returns exactly \<open>k\<close> folds; no index
  occurs twice in them, the index sets of two different folds are disjoint, and their
  union is the index range \<open>0..n-1\<close> of the input.
\<close>

theorem createStratifiedFolds_partition:
  assumes "rearranges e" and "2 \<le> k"
    and "k \<le> int (length (filter (\<lambda>l. l = 1) labels))"
    and "k \<le> int (length (filter (\<lambda>l. l \<noteq> 1) labels))"
  shows "length (createStratifiedFolds e labels k) = nat k
       \<and> distinct (concat (map indices (createStratifiedFolds e labels k)))
       \<and> (\<forall>i < nat k. \<forall>j < nat k. i \<noteq> j \<longrightarrow>
            set (indices (createStratifiedFolds e labels k ! i))
              \<inter> set (indices (createStratifiedFolds e labels k ! j)) = {})
       \<and> (\<Union>f \<in> set (createStratifiedFolds e labels k). set (indices f)) = {0..<length labels}"
proof -
  let ?folds = "createStratifiedFolds e labels k"
  from assms(2) have k: "1 \<le> k" by simp
  have m: "mset (concat (map indices ?folds)) = mset [0..<length labels]"
    by (rule mset_indices_createStratifiedFolds [OF assms(1) k])
  have len: "length ?folds = nat k" by (rule length_createStratifiedFolds)
  have d: "distinct (concat (map indices ?folds))"
    using mset_eq_imp_distinct_iff [OF m] by simp
  have u: "(\<Union>f \<in> set ?folds. set (indices f)) = {0..<length labels}"
    using mset_eq_setD [OF m] by simp
  have p: "set (indices (?folds ! i)) \<inter> set (indices (?folds ! j)) = {}"
    if "i < nat k" "j < nat k" "i \<noteq> j" for i j
    using distinct_concat_nth_disjoint [OF d, of i j] that by (simp add: len)
  show ?thesis using len d u p by blast
qed

text \<open>The reference engine's sort rearranges.\<close>

lemma mset_insertBy: "mset (fst (insertBy cmp x (ys, s))) = add_mset x (mset ys)"
proof (induction ys arbitrary: s)
  case Nil
  then show ?case by simp
next
  case (Cons y ys)
  obtain r s' where c: "cmp s x y = (r, s')" by (cases "cmp s x y")
  obtain zs s'' where i: "insertBy cmp x (ys, s') = (zs, s'')" by (cases "insertBy cmp x (ys, s')")
  from Cons.IH [of s'] have "mset zs = add_mset x (mset ys)" by (simp add: i)
  then show ?case by (simp add: c i)
qed

lemma mset_insertionSort: "mset (fst (insertionSort cmp s xs)) = mset xs"
proof (induction xs)
  case Nil
  then show ?case by simp
next
  case (Cons x xs)
  obtain ys s' where r: "insertionSort cmp s xs = (ys, s')" by (cases "insertionSort cmp s xs")
  with Cons have "mset ys = mset xs" by simp
  then show ?case by (simp add: r mset_insertBy)
qed

lemma rearranges_referenceEngine: "rearranges referenceEngine"
  by (simp add: rearranges_def referenceEngine_def mset_insertionSort)

text \<open>Eight labels, three of them positive, in two folds on the reference engine.\<close>

theorem createStratifiedFolds_partition_witness:
  "rearranges referenceEngine
   \<and> length (createStratifiedFolds referenceEngine [1, 0, 1, 0, 1, 0, 0, 0] 2) = 2
   \<and> set (indices (createStratifiedFolds referenceEngine [1, 0, 1, 0, 1, 0, 0, 0] 2 ! 0))
       \<inter> set (indices (createStratifiedFolds referenceEngine [1, 0, 1, 0, 1, 0, 0, 0] 2 ! 1)) = {}
   \<and> (\<Union>f \<in> set (createStratifiedFolds referenceEngine [1, 0, 1, 0, 1, 0, 0, 0] 2).
         set (indices f)) = {0..<8}"
proof -
  let ?labels = "[1, 0, 1, 0, 1, 0, 0, 0] :: real list"
  have a: "(2::int) \<le> 2" by simp
  have b: "2 \<le> int (length (filter (\<lambda>l. l = 1) ?labels))" by simp
  have c: "2 \<le> int (length (filter (\<lambda>l. l \<noteq> 1) ?labels))" by simp
  note t = createStratifiedFolds_partition [OF rearranges_referenceEngine a b c]
  from t have "set (indices (createStratifiedFolds referenceEngine ?labels 2 ! 0))
       \<inter> set (indices (createStratifiedFolds referenceEngine ?labels 2 ! 1)) = {}"
    by simp
  with t rearranges_referenceEngine show ?thesis by (simp add: eval_nat_numeral)
qed

section \<open>Reproducible folds\<close>

lemma positions_cong:
  assumes "map P labels' = map P labels"
  shows "filter (\<lambda>idx. P (labels' ! idx)) [0..<length labels']
       = filter (\<lambda>idx. P (labels ! idx)) [0..<length labels]"
proof -
  from assms have l: "length labels' = length labels" by (rule map_eq_imp_length_eq)
  have "P (labels' ! idx) = P (labels ! idx)" if "idx < length labels" for idx
    using that l nth_map [of idx labels' P] nth_map [of idx labels P] assms by simp
  then show ?thesis unfolding l by (intro filter_cong) simp_all
qed

text \<open>
  Claim C7. The seed is the constant \<^verbatim>\<open>CV_CONFIG.randomSeed\<close>; the counter
  \<^verbatim>\<open>currentSeed\<close> of the comparator starts from it in every call of \<^verbatim>\<open>shuffle\<close> and
  is dropped when the call ends; the arrays that \<^verbatim>\<open>sort\<close> rearranges are built anew in
  every invocation. So the folds are determined by the engine, \<open>k\<close> and the positions of
  the labels equal to 1: two invocations on label sequences that agree on these positions,
  and in particular on the same sequence, return the same folds in the same order.
\<close>

theorem createStratifiedFolds_deterministic:
  assumes "map (\<lambda>l. l = 1) labels' = map (\<lambda>l. l = 1) labels"
  shows "createStratifiedFolds e labels' k = createStratifiedFolds e labels k"
proof -
  have p: "filter (\<lambda>idx. labels' ! idx = 1) [0..<length labels']
         = filter (\<lambda>idx. labels ! idx = 1) [0..<length labels]"
    using positions_cong [of "\<lambda>l. l = 1", OF assms] .
  have "map (\<lambda>l. l \<noteq> 1) labels' = map Not (map (\<lambda>l. l = 1) labels')"
    and "map (\<lambda>l. l \<noteq> 1) labels = map Not (map (\<lambda>l. l = 1) labels)"
    by simp_all
  with assms have "map (\<lambda>l. l \<noteq> 1) labels' = map (\<lambda>l. l \<noteq> 1) labels"
    by (simp only:)
  then have n: "filter (\<lambda>idx. labels' ! idx \<noteq> 1) [0..<length labels']
         = filter (\<lambda>idx. labels ! idx \<noteq> 1) [0..<length labels]"
    by (rule positions_cong [of "\<lambda>l. l \<noteq> 1"])
  show ?thesis by (simp only: createStratifiedFolds_def p n)
qed

text \<open>A witness on the reference engine: the label 2 is a negative like the label 0.\<close>

theorem createStratifiedFolds_deterministic_witness:
  "map (\<lambda>l. l = 1) [1, 2, 1, 0, 1, 0, 0, 0 :: real] = map (\<lambda>l. l = 1) [1, 0, 1, 0, 1, 0, 0, 0 :: real]
   \<and> createStratifiedFolds referenceEngine [1, 2, 1, 0, 1, 0, 0, 0] 2
     = createStratifiedFolds referenceEngine [1, 0, 1, 0, 1, 0, 0, 0] 2"
  using createStratifiedFolds_deterministic
          [of "[1, 2, 1, 0, 1, 0, 0, 0]" "[1, 0, 1, 0, 1, 0, 0, 0]" referenceEngine 2]
  by simp

section \<open>Mean, standard deviation and verdict\<close>

lemma foldl_fadd_snoc: "foldl (fadd \<nu>) v vs = sumUpTo \<nu> (rev (v # vs))"
proof (induction vs rule: rev_induct)
  case Nil
  then show ?case by simp
next
  case (snoc w ws)
  obtain u us where r: "rev ws @ [v] = u # us" by (cases "rev ws @ [v]") auto
  from snoc show ?case by (simp add: r)
qed

lemma foldl_squares_snoc:
  "foldl (\<lambda>a b. fadd \<nu> a (fpow2 \<nu> (fsub \<nu> b m))) (Num 0) vs = squaresUpTo \<nu> m (rev vs)"
  by (induction vs rule: rev_induct) simp_all

lemma calculateStats_rounded:
  assumes "foldResults \<noteq> []"
  shows "calculateStats \<nu> metric foldResults = Inr (aggregatedMetric \<nu> (map metric foldResults))"
proof -
  obtain v vs where vs: "map metric foldResults = v # vs"
    using assms by (cases foldResults) auto
  show ?thesis
    unfolding calculateStats_def Let_def vs
    by (simp add: aggregatedMetric_def roundedPopulationStd_def roundedMean_def roundedSum_def
        foldl_fadd_snoc foldl_squares_snoc del: foldl_Cons)
qed

lemma aggregate_rounded:
  assumes "foldResults \<noteq> []"
  shows "aggregate \<nu> ms foldResults =
           Inr (map (\<lambda>(name, metric). (name, aggregatedMetric \<nu> (map metric foldResults))) ms)"
  by (induction ms) (auto simp add: calculateStats_rounded [OF assms])

text \<open>Exact arithmetic gives the arithmetic mean and the population standard deviation.\<close>

lemma exactNumerics_simps [simp]:
  "nearest exactNumerics a = Num a"
  "math_pow2 exactNumerics a = Num (a\<^sup>2)"
  "math_sqrt exactNumerics a = Num (sqrt a)"
  by (simp_all add: exactNumerics_def)

lemma fadd_exact [simp]: "fadd exactNumerics (Num a) (Num b) = Num (a + b)"
  by (simp add: fadd_def)

lemma fsub_exact [simp]: "fsub exactNumerics (Num a) (Num b) = Num (a - b)"
  by (simp add: fsub_def jsub_def)

lemma fdiv_exact [simp]: "b \<noteq> 0 \<Longrightarrow> fdiv exactNumerics (Num a) (Num b) = Num (a / b)"
  by (simp add: fdiv_def)

lemma sumUpTo_exact: "sumUpTo exactNumerics (map Num rs) = Num (sum_list rs)"
  by (induction rs rule: induct_list012) simp_all

lemma squaresUpTo_exact:
  "squaresUpTo exactNumerics (Num m) (map Num rs) = Num (sum_list (map (\<lambda>x. (x - m)\<^sup>2) rs))"
  by (induction rs) simp_all

lemma sum_squares_nonneg: "0 \<le> sum_list (map (\<lambda>x :: real. (x - m)\<^sup>2) xs)"
  by (rule sum_list_nonneg) auto

lemma roundedMean_exact:
  "rs \<noteq> [] \<Longrightarrow> roundedMean exactNumerics (map Num rs) = Num (arithmeticMean rs)"
  using sumUpTo_exact [of "rev rs"]
  by (simp add: roundedMean_def roundedSum_def arithmeticMean_def jnat_def rev_map)

lemma roundedPopulationStd_exact:
  assumes "rs \<noteq> []"
  shows "roundedPopulationStd exactNumerics (map Num rs) = Num (populationStd rs)"
proof -
  have "0 \<le> sum_list (map (\<lambda>x. (x - arithmeticMean rs)\<^sup>2) rs) / real (length rs)"
    using sum_squares_nonneg [of "arithmeticMean rs" rs] by simp
  moreover have "sum_list (map (\<lambda>x. (x - arithmeticMean rs)\<^sup>2) (rev rs))
      = sum_list (map (\<lambda>x. (x - arithmeticMean rs)\<^sup>2) rs)"
    by (simp add: rev_map [symmetric] sum_list_rev del: rev_map)
  ultimately show ?thesis
    using assms squaresUpTo_exact [of "arithmeticMean rs" "rev rs"]
    by (simp add: roundedPopulationStd_def roundedMean_exact populationStd_def jnat_def rev_map)
qed

text \<open>
  Claim C6. Over \<open>k \<ge> 1\<close> fold results and for every metric, \<^verbatim>\<open>calculateStats\<close>
  returns as \<^verbatim>\<open>mean\<close> the sum of the \<open>k\<close> values divided by \<open>k\<close> and as \<^verbatim>\<open>std\<close>
  the root of the sum of the squared deviations from that mean divided by \<open>k\<close> (not by
  \<open>k - 1\<close>), in the arithmetic of the number system; \<^verbatim>\<open>aggregated\<close> holds this for
  each of the six metric names. The verdict is \<open>STABLE\<close> exactly when the \<^verbatim>\<open>std\<close> so
  computed for the AUC is below the number that the literal \<^verbatim>\<open>0.05\<close> denotes, and
  \<open>VARIABLE\<close> otherwise; the threshold is no parameter. In exact arithmetic, on finite
  values, \<^verbatim>\<open>mean\<close> and \<^verbatim>\<open>std\<close> are the arithmetic mean and the population standard
  deviation.
\<close>

theorem aggregation_mean_std_verdict:
  assumes "foldResults \<noteq> []"
  shows "calculateStats \<nu> metric foldResults = Inr (aggregatedMetric \<nu> (map metric foldResults))
       \<and> aggregate \<nu> metricNames foldResults =
           Inr (map (\<lambda>(name, metric). (name, aggregatedMetric \<nu> (map metric foldResults)))
                    metricNames)
       \<and> (\<exists>aggregated. aggregate \<nu> metricNames foldResults = Inr aggregated
            \<and> stabilityVerdict \<nu> aggregated
                = Inr (if jless (roundedPopulationStd \<nu> (map auc foldResults)) (nearest \<nu> (1 / 20))
                       then STABLE else VARIABLE))
       \<and> (\<forall>rs. map metric foldResults = map Num rs \<longrightarrow>
            calculateStats exactNumerics metric foldResults
              = Inr \<lparr>mean = Num (arithmeticMean rs), std = Num (populationStd rs),
                     values' = map Num rs\<rparr>)"
proof -
  have a: "aggregate \<nu> metricNames foldResults =
           Inr (map (\<lambda>(name, metric). (name, aggregatedMetric \<nu> (map metric foldResults)))
                    metricNames)"
    by (rule aggregate_rounded [OF assms])
  have v: "stabilityVerdict \<nu>
             (map (\<lambda>(name, metric). (name, aggregatedMetric \<nu> (map metric foldResults))) metricNames)
           = Inr (if jless (roundedPopulationStd \<nu> (map auc foldResults)) (nearest \<nu> (1 / 20))
                  then STABLE else VARIABLE)"
    by (simp add: stabilityVerdict_def metricNames_def aggregatedMetric_def)
  have x: "calculateStats exactNumerics metric foldResults
              = Inr \<lparr>mean = Num (arithmeticMean rs), std = Num (populationStd rs),
                     values' = map Num rs\<rparr>"
    if r: "map metric foldResults = map Num rs" for rs
  proof -
    from r assms have "rs \<noteq> []" by auto
    then show ?thesis
      by (simp add: calculateStats_rounded [OF assms] r aggregatedMetric_def roundedMean_exact
          roundedPopulationStd_exact)
  qed
  from calculateStats_rounded [OF assms] a v x show ?thesis by simp
qed

text \<open>
  The two AUC sequences of the specification, in exact arithmetic: the first is stable,
  the second variable.
\<close>

lemma populationStd_stable_example: "populationStd [0.70, 0.72, 0.69, 0.71, 0.73] < 1 / 20"
  unfolding populationStd_def arithmeticMean_def
  by (rule real_less_lsqrt) (simp_all add: power2_eq_square)

lemma populationStd_variable_example: "\<not> populationStd [0.50, 0.90, 0.55, 0.95, 0.60] < 1 / 20"
proof -
  have "1 / 20 \<le> populationStd [0.50, 0.90, 0.55, 0.95, 0.60]"
    unfolding populationStd_def arithmeticMean_def
    by (rule real_le_rsqrt) (simp add: power2_eq_square)
  then show ?thesis by simp
qed

theorem aggregation_mean_std_verdict_witness:
  "calculateStats exactNumerics auc (map foldWithAuc [0.70, 0.72, 0.69, 0.71, 0.73]) =
      Inr \<lparr>mean = Num 0.71, std = Num (populationStd [0.70, 0.72, 0.69, 0.71, 0.73]),
           values' = map Num [0.70, 0.72, 0.69, 0.71, 0.73]\<rparr>
   \<and> (\<exists>aggregated.
         aggregate exactNumerics metricNames (map foldWithAuc [0.70, 0.72, 0.69, 0.71, 0.73])
           = Inr aggregated
         \<and> stabilityVerdict exactNumerics aggregated = Inr STABLE)
   \<and> (\<exists>aggregated.
         aggregate exactNumerics metricNames (map foldWithAuc [0.50, 0.90, 0.55, 0.95, 0.60])
           = Inr aggregated
         \<and> stabilityVerdict exactNumerics aggregated = Inr VARIABLE)"
proof -
  let ?a = "[0.70, 0.72, 0.69, 0.71, 0.73] :: real list"
  let ?b = "[0.50, 0.90, 0.55, 0.95, 0.60] :: real list"
  have ma: "map auc (map foldWithAuc ?a) = map Num ?a"
    and mb: "map auc (map foldWithAuc ?b) = map Num ?b"
    by (simp_all add: foldWithAuc_def)
  have na: "map foldWithAuc ?a \<noteq> []" and nb: "map foldWithAuc ?b \<noteq> []" by simp_all
  have mean: "arithmeticMean ?a = 0.71" by (simp add: arithmeticMean_def)
  have sa: "roundedPopulationStd exactNumerics (map auc (map foldWithAuc ?a)) = Num (populationStd ?a)"
    unfolding ma by (rule roundedPopulationStd_exact) simp
  have sb: "roundedPopulationStd exactNumerics (map auc (map foldWithAuc ?b)) = Num (populationStd ?b)"
    unfolding mb by (rule roundedPopulationStd_exact) simp
  note ta = aggregation_mean_std_verdict [OF na, of exactNumerics auc]
  note tb = aggregation_mean_std_verdict [OF nb, of exactNumerics auc]
  have ca: "jless (roundedPopulationStd exactNumerics (map auc (map foldWithAuc ?a)))
                  (nearest exactNumerics (1 / 20))"
    unfolding sa using populationStd_stable_example by simp
  have cb: "\<not> jless (roundedPopulationStd exactNumerics (map auc (map foldWithAuc ?b)))
                    (nearest exactNumerics (1 / 20))"
    unfolding sb using populationStd_variable_example by simp
  have 1: "calculateStats exactNumerics auc (map foldWithAuc ?a) =
      Inr \<lparr>mean = Num 0.71, std = Num (populationStd ?a), values' = map Num ?a\<rparr>"
    using ta [THEN conjunct2, THEN conjunct2, THEN conjunct2, rule_format, OF ma]
    by (simp only: mean)
  have 2: "\<exists>aggregated.
         aggregate exactNumerics metricNames (map foldWithAuc ?a) = Inr aggregated
         \<and> stabilityVerdict exactNumerics aggregated = Inr STABLE"
    using ta [THEN conjunct2, THEN conjunct2, THEN conjunct1] ca by (simp only: if_True)
  have 3: "\<exists>aggregated.
         aggregate exactNumerics metricNames (map foldWithAuc ?b) = Inr aggregated
         \<and> stabilityVerdict exactNumerics aggregated = Inr VARIABLE"
    using tb [THEN conjunct2, THEN conjunct2, THEN conjunct1] cb by (simp only: if_False)
  from 1 2 3 show ?thesis by (intro conjI)
qed

section \<open>The members of a fold\<close>

lemma length_filter_positions:
  "length (filter (\<lambda>idx. P (labels ! idx)) [0..<length labels]) = length (filter P labels)"
proof -
  have "filter P (map (\<lambda>idx. labels ! idx) [0..<length labels])
      = map (\<lambda>idx. labels ! idx) (filter (P \<circ> (\<lambda>idx. labels ! idx)) [0..<length labels])"
    by (rule filter_map)
  then have "length (filter P labels)
      = length (filter (P \<circ> (\<lambda>idx. labels ! idx)) [0..<length labels])"
    by (simp add: map_nth)
  then show ?thesis by (simp add: comp_def)
qed

lemma nth_createStratifiedFolds:
  assumes "i < nat k"
  shows "createStratifiedFolds e labels k ! i =
     makeFold (shuffle e (filter (\<lambda>idx. labels ! idx = 1) [0..<length labels]) (randomSeed CV_CONFIG))
              (shuffle e (filter (\<lambda>idx. labels ! idx \<noteq> 1) [0..<length labels]) (randomSeed CV_CONFIG + 1))
              (int (length (shuffle e (filter (\<lambda>idx. labels ! idx = 1) [0..<length labels]) (randomSeed CV_CONFIG))) div k)
              (int (length (shuffle e (filter (\<lambda>idx. labels ! idx \<noteq> 1) [0..<length labels]) (randomSeed CV_CONFIG + 1))) div k)
              k (int i)"
proof -
  from assms have "[0..k - 1] ! i = int i" and "i < length [0..k - 1]"
    by simp_all
  then show ?thesis by (simp add: createStratifiedFolds_def Let_def)
qed

text \<open>What a chunk holds.\<close>

lemma set_js_slice: "set (js_slice arr a b) \<subseteq> set arr"
  unfolding js_slice_def Let_def
  by (auto dest: in_set_takeD in_set_dropD)

lemma set_chunk: "set (chunk arr q k i) \<subseteq> set arr"
  by (simp add: chunk_def set_js_slice)

lemma chunk_zero: "i \<noteq> k - 1 \<Longrightarrow> chunk arr 0 k i = []"
  by (simp add: chunk_def js_slice_def Let_def)

lemma chunk_nonempty:
  assumes "1 \<le> k" and "i < nat k" and "k \<le> int (length arr)"
  shows "chunk arr (int (length arr) div k) k (int i) \<noteq> []"
proof -
  define m where "m = nat k"
  have k: "k = int m" and m: "1 \<le> m" using assms(1) by (simp_all add: m_def)
  let ?q = "length arr div m"
  have q: "int (length arr) div k = int ?q" by (simp add: k zdiv_int)
  from assms(3) have "m \<le> length arr" by (simp add: k)
  then have q1: "1 \<le> ?q" using m by (simp add: Suc_le_eq div_greater_zero_iff)
  have mq: "m * ?q \<le> length arr" by simp
  from assms(2) have im: "i < m" by (simp add: m_def)
  show ?thesis
  proof (cases "int i = k - 1")
    case True
    then have "chunk arr (int ?q) k (int i) = js_slice arr (int (i * ?q)) (int (length arr))"
      by (simp add: chunk_def)
    also have "\<dots> = take (length arr - i * ?q) (drop (i * ?q) arr)" by (rule js_slice_nat)
    finally have c: "chunk arr (int ?q) k (int i) = drop (i * ?q) arr" by simp
    have "Suc i * ?q \<le> m * ?q" using im by (intro mult_le_mono1) simp
    then have "i * ?q + ?q \<le> m * ?q" by simp
    with mq q1 have "i * ?q < length arr" by linarith
    then show ?thesis by (simp add: q c)
  next
    case False
    then have "chunk arr (int ?q) k (int i) = js_slice arr (int (i * ?q)) (int ((i + 1) * ?q))"
      by (simp add: chunk_def algebra_simps)
    also have "\<dots> = take ((i + 1) * ?q - i * ?q) (drop (i * ?q) arr)" by (rule js_slice_nat)
    finally have c: "chunk arr (int ?q) k (int i) = take ?q (drop (i * ?q) arr)" by simp
    have "Suc i * ?q \<le> m * ?q" using im by (intro mult_le_mono1) simp
    then have "i * ?q + ?q \<le> m * ?q" by simp
    with mq q1 have "i * ?q < length arr" by linarith
    with q1 show ?thesis by (simp add: q c)
  qed
qed

text \<open>The folds on an engine whose sort rearranges.\<close>

lemma set_shuffle: "rearranges e \<Longrightarrow> set (shuffle e arr seed) = set arr"
  using mset_shuffle [of e arr seed] by (rule mset_eq_setD)

lemma indices_createStratifiedFolds:
  assumes "i < nat k"
  shows "indices (createStratifiedFolds e labels k ! i) =
     chunk (shuffle e (filter (\<lambda>idx. labels ! idx = 1) [0..<length labels]) (randomSeed CV_CONFIG))
           (int (length (shuffle e (filter (\<lambda>idx. labels ! idx = 1) [0..<length labels]) (randomSeed CV_CONFIG))) div k)
           k (int i)
     @ chunk (shuffle e (filter (\<lambda>idx. labels ! idx \<noteq> 1) [0..<length labels]) (randomSeed CV_CONFIG + 1))
           (int (length (shuffle e (filter (\<lambda>idx. labels ! idx \<noteq> 1) [0..<length labels]) (randomSeed CV_CONFIG + 1))) div k)
           k (int i)"
  by (simp only: nth_createStratifiedFolds [OF assms] indices_makeFold)

lemma fold_indices_in_range:
  assumes "rearranges e" and "i < nat k" and "j \<in> set (indices (createStratifiedFolds e labels k ! i))"
  shows "j < length labels"
proof -
  let ?pos = "shuffle e (filter (\<lambda>idx. labels ! idx = 1) [0..<length labels]) (randomSeed CV_CONFIG)"
  let ?neg = "shuffle e (filter (\<lambda>idx. labels ! idx \<noteq> 1) [0..<length labels]) (randomSeed CV_CONFIG + 1)"
  from assms(3) have "j \<in> set (chunk ?pos (int (length ?pos) div k) k (int i))
      \<or> j \<in> set (chunk ?neg (int (length ?neg) div k) k (int i))"
    unfolding indices_createStratifiedFolds [OF assms(2)] by simp
  then have "j \<in> set ?pos \<or> j \<in> set ?neg"
    using set_chunk [of ?pos] set_chunk [of ?neg] by blast
  then show ?thesis by (auto simp add: set_shuffle [OF assms(1)])
qed

lemma fold_nonempty:
  assumes "rearranges e" and "1 \<le> k" and "i < nat k"
    and "k \<le> int (length (filter (\<lambda>l. l = 1) labels))
         \<or> k \<le> int (length (filter (\<lambda>l. l \<noteq> 1) labels))"
  shows "indices (createStratifiedFolds e labels k ! i) \<noteq> []"
proof -
  let ?pos = "shuffle e (filter (\<lambda>idx. labels ! idx = 1) [0..<length labels]) (randomSeed CV_CONFIG)"
  let ?neg = "shuffle e (filter (\<lambda>idx. labels ! idx \<noteq> 1) [0..<length labels]) (randomSeed CV_CONFIG + 1)"
  have lp: "length ?pos = length (filter (\<lambda>l. l = 1) labels)"
    using length_filter_positions [of "\<lambda>l. l = 1" labels] by (simp add: length_shuffle [OF assms(1)])
  have ln: "length ?neg = length (filter (\<lambda>l. l \<noteq> 1) labels)"
    using length_filter_positions [of "\<lambda>l. l \<noteq> 1" labels] by (simp add: length_shuffle [OF assms(1)])
  from assms(4) have "chunk ?pos (int (length ?pos) div k) k (int i) \<noteq> []
      \<or> chunk ?neg (int (length ?neg) div k) k (int i) \<noteq> []"
    using chunk_nonempty [OF assms(2,3), of ?pos] chunk_nonempty [OF assms(2,3), of ?neg]
    by (auto simp only: lp ln)
  then show ?thesis
    unfolding indices_createStratifiedFolds [OF assms(3)] by simp
qed

lemma fold_without_positives:
  assumes "rearranges e" and "int (length (filter (\<lambda>l. l = 1) labels)) < k" and "i < nat k - 1"
  shows "positive (createStratifiedFolds e labels k ! i) = 0"
    and "\<forall>j \<in> set (indices (createStratifiedFolds e labels k ! i)). labels ! j \<noteq> 1"
proof -
  let ?pos = "shuffle e (filter (\<lambda>idx. labels ! idx = 1) [0..<length labels]) (randomSeed CV_CONFIG)"
  let ?neg = "shuffle e (filter (\<lambda>idx. labels ! idx \<noteq> 1) [0..<length labels]) (randomSeed CV_CONFIG + 1)"
  have "length ?pos = length (filter (\<lambda>l. l = 1) labels)"
    using length_filter_positions [of "\<lambda>l. l = 1" labels] by (simp add: length_shuffle [OF assms(1)])
  with assms(2) have z: "int (length ?pos) div k = 0" by simp
  from assms(3) have i: "i < nat k" and l: "int i \<noteq> k - 1" by simp_all
  show "positive (createStratifiedFolds e labels k ! i) = 0"
    using l by (simp add: nth_createStratifiedFolds [OF i] z makeFold_def Let_def)
  have "indices (createStratifiedFolds e labels k ! i)
      = chunk ?neg (int (length ?neg) div k) k (int i)"
    by (simp add: indices_createStratifiedFolds [OF i] z chunk_zero [OF l])
  moreover have "set (chunk ?neg (int (length ?neg) div k) k (int i))
      \<subseteq> set (filter (\<lambda>idx. labels ! idx \<noteq> 1) [0..<length labels])"
    using set_chunk [of ?neg "int (length ?neg) div k" k "int i"]
    by (simp only: set_shuffle [OF assms(1)])
  ultimately show "\<forall>j \<in> set (indices (createStratifiedFolds e labels k ! i)). labels ! j \<noteq> 1"
    by auto
qed

lemma fold_without_negatives:
  assumes "rearranges e" and "int (length (filter (\<lambda>l. l \<noteq> 1) labels)) < k" and "i < nat k - 1"
  shows "negative (createStratifiedFolds e labels k ! i) = 0"
    and "\<forall>j \<in> set (indices (createStratifiedFolds e labels k ! i)). labels ! j = 1"
proof -
  let ?pos = "shuffle e (filter (\<lambda>idx. labels ! idx = 1) [0..<length labels]) (randomSeed CV_CONFIG)"
  let ?neg = "shuffle e (filter (\<lambda>idx. labels ! idx \<noteq> 1) [0..<length labels]) (randomSeed CV_CONFIG + 1)"
  have "length ?neg = length (filter (\<lambda>l. l \<noteq> 1) labels)"
    using length_filter_positions [of "\<lambda>l. l \<noteq> 1" labels] by (simp add: length_shuffle [OF assms(1)])
  with assms(2) have z: "int (length ?neg) div k = 0" by simp
  from assms(3) have i: "i < nat k" and l: "int i \<noteq> k - 1" by simp_all
  show "negative (createStratifiedFolds e labels k ! i) = 0"
    using l by (simp add: nth_createStratifiedFolds [OF i] z makeFold_def Let_def)
  have "indices (createStratifiedFolds e labels k ! i)
      = chunk ?pos (int (length ?pos) div k) k (int i)"
    by (simp add: indices_createStratifiedFolds [OF i] z chunk_zero [OF l])
  moreover have "set (chunk ?pos (int (length ?pos) div k) k (int i))
      \<subseteq> set (filter (\<lambda>idx. labels ! idx = 1) [0..<length labels])"
    using set_chunk [of ?pos "int (length ?pos) div k" k "int i"]
    by (simp only: set_shuffle [OF assms(1)])
  ultimately show "\<forall>j \<in> set (indices (createStratifiedFolds e labels k ! i)). labels ! j = 1"
    by auto
qed

section \<open>A fold without one of the classes\<close>

lemma rankStep_snd:
  "snd (snd (rankStep (p, n, s) (i, z))) = s + (if snd z = 1 then i + 1 else 0)"
  by (simp add: rankStep_def)

lemma foldl_rankStep_negatives:
  "\<forall>z \<in> set pairs. snd z \<noteq> 1 \<Longrightarrow>
   snd (snd (foldl rankStep (p, n, s) (zip is pairs))) = s"
proof (induction pairs arbitrary: "is" p n s)
  case Nil
  then show ?case by simp
next
  case (Cons z pairs)
  show ?case
  proof (cases "is")
    case Nil
    then show ?thesis by simp
  next
    case (Cons i js)
    obtain p' n' s' where st: "rankStep (p, n, s) (i, z) = (p', n', s')"
      by (cases "rankStep (p, n, s) (i, z)")
    from Cons.prems have "snd z \<noteq> 1" and rest: "\<forall>z \<in> set pairs. snd z \<noteq> 1" by simp_all
    then have "s' = s" using rankStep_snd [of p n s i z] by (simp add: st)
    with Cons.IH [OF rest, of p' n' s' js] show ?thesis by (simp add: Cons st)
  qed
qed

lemma foldl_rankStep_positives:
  "\<forall>z \<in> set pairs. snd z = 1 \<Longrightarrow>
   2 * snd (snd (foldl rankStep (p, n, s) (zip [i..<i + length pairs] pairs)))
     = 2 * s + length pairs * (2 * i + length pairs + 1)"
proof (induction pairs arbitrary: i p n s)
  case Nil
  then show ?case by simp
next
  case (Cons z pairs)
  obtain p' n' s' where st: "rankStep (p, n, s) (i, z) = (p', n', s')"
    by (cases "rankStep (p, n, s) (i, z)")
  from Cons.prems have "snd z = 1" and rest: "\<forall>z \<in> set pairs. snd z = 1" by simp_all
  then have s': "s' = s + i + 1" using rankStep_snd [of p n s i z] by (simp add: st)
  have u: "[i..<i + length (z # pairs)] = i # [Suc i..<Suc i + length pairs]"
    by (simp add: upt_rec)
  from Cons.IH [OF rest, of p' n' s' "Suc i"] show ?case
    unfolding u by (simp add: st s' algebra_simps)
qed

lemma aucOf_degenerate:
  assumes "length labels = length predictions"
    and "1 \<notin> set labels \<or> set labels \<subseteq> {1}"
  shows "aucOf predictions labels = NaN"
proof -
  let ?pairs = "sortedPairs predictions labels"
  let ?P = "length (filter (\<lambda>l. l = 1) labels)"
  let ?N = "length (filter (\<lambda>l. l \<noteq> 1) labels)"
  obtain s where r: "rankSums ?pairs = (?P, ?N, s)"
    using rankSums_counts [of ?pairs] sortedPairs_counts [OF assms(1)] by auto
  have mem: "snd z \<in> set labels" if "z \<in> set ?pairs" for z
  proof -
    from that have "(fst z, snd z) \<in> set (zip predictions labels)"
      by (simp add: sortedPairs_def)
    then show ?thesis by (rule set_zip_rightD)
  qed
  have len: "length ?pairs = length labels"
    using assms(1) by (simp add: sortedPairs_def)
  from assms(2) show ?thesis
  proof
    assume none: "1 \<notin> set labels"
    then have "\<forall>z \<in> set ?pairs. snd z \<noteq> 1" using mem by metis
    from foldl_rankStep_negatives [OF this, of 0 0 0 "[0..<length ?pairs]"] r
    have s: "s = 0" by (simp add: rankSums_def)
    from none have "filter (\<lambda>l. l = 1) labels = []" by (auto simp add: filter_empty_conv)
    then have "?P = 0" by simp
    then show ?thesis by (simp add: aucOf_def r s jnat_def jsub_def)
  next
    assume all: "set labels \<subseteq> {1}"
    then have "\<forall>z \<in> set ?pairs. snd z = 1" using mem by blast
    from foldl_rankStep_positives [OF this, of 0 0 0 0] r
    have s: "2 * s = length labels * (length labels + 1)" by (simp add: rankSums_def len)
    from all have "filter (\<lambda>l. l \<noteq> 1) labels = []" by (auto simp add: filter_empty_conv)
    then have n: "?N = 0" by simp
    from all have "filter (\<lambda>l. l = 1) labels = labels" by (auto simp add: filter_id_conv)
    then have p: "?P = length labels" by simp
    from s have "2 * real s = real (length labels) * (real (length labels) + 1)"
      by (metis of_nat_mult of_nat_add of_nat_1 of_nat_numeral)
    then have "real s - real (length labels) * (real (length labels) + 1) / 2 = 0" by simp
    then show ?thesis by (simp add: aucOf_def r n p jnat_def jsub_def)
  qed
qed

section \<open>The loop over the folds\<close>

lemma nFolds_CV_CONFIG: "nFolds CV_CONFIG = 5"
  by (simp add: CV_CONFIG_def)

lemma length_foldsOfRun: "length (foldsOfRun e ys) = 5"
  by (simp add: foldsOfRun_def length_createStratifiedFolds nFolds_CV_CONFIG)

lemma others_filter:
  assumes "i < length folds"
  shows "concat (map (\<lambda>j. indices (folds ! j)) (filter (\<lambda>j. j \<noteq> i) [0..<length folds]))
       = othersOf folds i"
proof -
  have f: "filter (\<lambda>j. j \<noteq> i) [0..<length folds] = [0..<i] @ [Suc i..<length folds]"
  proof -
    have "[0..<length folds] = [0..<i] @ [i..<length folds]"
      using assms upt_add_eq_append [of 0 i "length folds - i"] by simp
    also have "[i..<length folds] = i # [Suc i..<length folds]"
      using assms by (rule upt_conv_Cons)
    finally have "[0..<length folds] = [0..<i] @ i # [Suc i..<length folds]" .
    then show ?thesis by (auto simp add: filter_id_conv)
  qed
  have t: "map (\<lambda>j. folds ! j) [0..<i] = take i folds"
    using assms by (intro nth_equalityI) (simp_all add: min_def)
  have d: "map (\<lambda>j. folds ! j) [Suc i..<length folds] = drop (Suc i) folds"
    by (rule nth_equalityI) (simp_all add: assms)
  have "map (\<lambda>j. indices (folds ! j)) ([0..<i] @ [Suc i..<length folds])
      = map indices (map (\<lambda>j. folds ! j) [0..<i] @ map (\<lambda>j. folds ! j) [Suc i..<length folds])"
    by simp
  then show ?thesis by (simp only: f t d othersOf_def)
qed

lemma runFold_eq:
  assumes "i < length folds"
  shows "runFold classifier xs ys folds i =
     (if othersOf folds i = [] \<or> indices (folds ! i) = []
         \<or> (\<exists>j \<in> set (othersOf folds i @ indices (folds ! i)). length xs \<le> j \<or> length ys \<le> j)
      then Inl TensorError else heldOut classifier xs ys folds i)"
  unfolding runFold_def Let_def others_filter [OF assms]
  by (simp add: splitByIndices_def heldOut_def testLabels_def)

lemma runFold_heldOut:
  "i < length folds \<Longrightarrow> runFold classifier xs ys folds i = Inr m \<Longrightarrow>
   heldOut classifier xs ys folds i = Inr m"
  by (simp add: runFold_eq split: if_splits)

lemma runFolds_results:
  "runFolds classifier xs ys folds is = Inr ms \<Longrightarrow>
   list_all2 (\<lambda>i m. runFold classifier xs ys folds i = Inr m) is ms"
proof (induction "is" arbitrary: ms)
  case Nil
  then show ?case by simp
next
  case (Cons i "is")
  from Cons.prems obtain m ms' where "runFold classifier xs ys folds i = Inr m"
    and "runFolds classifier xs ys folds is = Inr ms'" and "ms = m # ms'"
    by (auto split: sum.splits)
  with Cons.IH [of ms'] show ?case by simp
qed

lemma runFolds_returns:
  "list_all2 (\<lambda>i m. runFold classifier xs ys folds i = Inr m) is ms \<Longrightarrow>
   runFolds classifier xs ys folds is = Inr ms"
  by (induction rule: list_all2_induct) simp_all

lemma heldOut_returns:
  assumes "onePredictionPerRow classifier"
  shows "\<exists>m. heldOut classifier xs ys folds i = Inr m"
  using assms by (simp add: heldOut_def testLabels_def onePredictionPerRow_def evaluateFold_def Let_def)

lemma heldOut_degenerate:
  assumes "onePredictionPerRow classifier" and "lacksClass (testLabels ys folds i)"
    and "heldOut classifier xs ys folds i = Inr m"
  shows "auc m = NaN"
proof -
  let ?p = "classifier i (map (\<lambda>j. xs ! j) (othersOf folds i)) (map (\<lambda>j. ys ! j) (othersOf folds i))
                     (map (\<lambda>j. xs ! j) (indices (folds ! i)))"
  have l: "length (testLabels ys folds i) = length ?p"
    using assms(1) by (simp add: onePredictionPerRow_def testLabels_def)
  from assms(2) have d: "1 \<notin> set (testLabels ys folds i) \<or> set (testLabels ys folds i) \<subseteq> {1}"
    by (simp add: lacksClass_def)
  from assms(3) have "auc m = aucOf ?p (testLabels ys folds i)"
    by (auto simp add: heldOut_def evaluateFold_def Let_def split: if_splits)
  with aucOf_degenerate [OF l d] show ?thesis by simp
qed

text \<open>A \<^verbatim>\<open>NaN\<close> among the values makes mean and standard deviation \<^verbatim>\<open>NaN\<close>.\<close>

lemma jadd_NaN_right: "jadd x NaN = NaN"
  by (cases x) simp_all

lemma fadd_NaN [simp]: "fadd \<nu> x NaN = NaN" "fadd \<nu> NaN y = NaN"
  by (simp_all add: fadd_def jadd_NaN_right)

lemma fsub_NaN [simp]: "fsub \<nu> x NaN = NaN"
  by (simp add: fsub_def jsub_def jadd_NaN_right)

lemma fdiv_NaN [simp]: "fdiv \<nu> NaN y = NaN"
  by (simp add: fdiv_def)

lemma sumUpTo_NaN: "NaN \<in> set vs \<Longrightarrow> sumUpTo \<nu> vs = NaN"
proof (induction \<nu> vs rule: sumUpTo.induct)
  case (1 \<nu>)
  then show ?case by simp
next
  case (2 \<nu> v)
  then show ?case by simp
next
  case (3 \<nu> v w ws)
  show ?case
  proof (cases "v = NaN")
    case True
    then show ?thesis by simp
  next
    case False
    with "3.prems" have "NaN \<in> set (w # ws)" by simp
    with "3.IH" show ?thesis by simp
  qed
qed

lemma squaresUpTo_NaN: "vs \<noteq> [] \<Longrightarrow> squaresUpTo \<nu> NaN vs = NaN"
  by (cases vs) simp_all

lemma aggregatedMetric_NaN:
  assumes "NaN \<in> set vs"
  shows "aggregatedMetric \<nu> vs = \<lparr>mean = NaN, std = NaN, values' = vs\<rparr>"
proof -
  from assms have n: "rev vs \<noteq> []" by auto
  from assms have m: "roundedMean \<nu> vs = NaN"
    by (simp add: roundedMean_def roundedSum_def sumUpTo_NaN)
  show ?thesis
    by (simp add: aggregatedMetric_def m roundedPopulationStd_def squaresUpTo_NaN [OF n])
qed

text \<open>
  With five samples of one class no fold is empty, so every split of the run is built.
\<close>

lemma others_in_folds:
  assumes "j \<in> set (othersOf folds i)"
  shows "\<exists>n < length folds. j \<in> set (indices (folds ! n))"
proof -
  from assms obtain f where "f \<in> set (take i folds) \<or> f \<in> set (drop (Suc i) folds)"
    and j: "j \<in> set (indices f)"
    by (auto simp add: othersOf_def)
  then have "f \<in> set folds" by (auto dest: in_set_takeD in_set_dropD)
  then obtain n where "n < length folds" and "folds ! n = f" by (auto simp add: in_set_conv_nth)
  with j show ?thesis by auto
qed

lemma others_nonempty:
  assumes "i < length folds" and "2 \<le> length folds"
    and "\<forall>n < length folds. indices (folds ! n) \<noteq> []"
  shows "othersOf folds i \<noteq> []"
proof (cases "i = 0")
  case True
  from assms(2) have "folds ! 1 \<in> set (drop (Suc 0) folds)"
    by (auto simp add: in_set_conv_nth intro!: exI [of _ 0])
  moreover from assms(2,3) have "indices (folds ! 1) \<noteq> []" by simp
  ultimately show ?thesis by (auto simp add: othersOf_def True)
next
  case False
  with assms(1) have "folds ! 0 \<in> set (take i folds)"
    by (auto simp add: in_set_conv_nth intro!: exI [of _ 0])
  moreover from assms(2) have "0 < length folds" by linarith
  with assms(3) have "indices (folds ! 0) \<noteq> []" by blast
  ultimately show ?thesis by (auto simp add: othersOf_def)
qed

lemma runFold_well_formed:
  assumes "rearranges e" and "length xs = length ys"
    and "5 \<le> length (filter (\<lambda>l. l = 1) ys) \<or> 5 \<le> length (filter (\<lambda>l. l \<noteq> 1) ys)"
    and "i < 5"
  shows "runFold classifier xs ys (foldsOfRun e ys) i = heldOut classifier xs ys (foldsOfRun e ys) i"
proof -
  let ?folds = "foldsOfRun e ys"
  have len: "length ?folds = 5" by (rule length_foldsOfRun)
  have ne: "indices (?folds ! n) \<noteq> []" if "n < 5" for n
    unfolding foldsOfRun_def nFolds_CV_CONFIG
    using fold_nonempty [OF assms(1), of 5 n ys] that assms(3) by simp
  have rng: "j < length ys" if "n < 5" "j \<in> set (indices (?folds ! n))" for n j
    using fold_indices_in_range [OF assms(1), of n 5 j ys] that
    by (simp add: foldsOfRun_def nFolds_CV_CONFIG)
  have o: "othersOf ?folds i \<noteq> []"
    using others_nonempty [of i ?folds] ne assms(4) by (simp add: len)
  have orng: "j < length ys" if "j \<in> set (othersOf ?folds i)" for j
    using others_in_folds [OF that] rng by (auto simp add: len)
  have "\<not> (\<exists>j \<in> set (othersOf ?folds i @ indices (?folds ! i)). length xs \<le> j \<or> length ys \<le> j)"
    using orng rng [OF assms(4)] assms(2) by (auto simp add: not_le)
  with o ne [OF assms(4)] show ?thesis
    using runFold_eq [of i ?folds classifier xs ys] assms(4) by (simp add: len)
qed

lemma runFolds_well_formed:
  assumes "rearranges e" and "length xs = length ys" and "onePredictionPerRow classifier"
    and "5 \<le> length (filter (\<lambda>l. l = 1) ys) \<or> 5 \<le> length (filter (\<lambda>l. l \<noteq> 1) ys)"
  shows "\<exists>foldResults.
           runFolds classifier xs ys (foldsOfRun e ys) [0..<5] = Inr foldResults
         \<and> length foldResults = 5
         \<and> (\<forall>i < 5. heldOut classifier xs ys (foldsOfRun e ys) i = Inr (foldResults ! i))"
proof -
  let ?folds = "foldsOfRun e ys"
  have "\<forall>i. \<exists>m. heldOut classifier xs ys ?folds i = Inr m"
    using heldOut_returns [OF assms(3)] by blast
  then obtain f where f: "\<And>i. heldOut classifier xs ys ?folds i = Inr (f i)" by metis
  let ?frs = "map f [0..<5]"
  have "list_all2 (\<lambda>i m. runFold classifier xs ys ?folds i = Inr m) [0..<5] ?frs"
    by (simp add: list_all2_conv_all_nth runFold_well_formed [OF assms(1,2,4)] f)
  then have "runFolds classifier xs ys ?folds [0..<5] = Inr ?frs" by (rule runFolds_returns)
  moreover have "length ?frs = 5" by simp
  moreover have "\<forall>i < 5. heldOut classifier xs ys ?folds i = Inr (?frs ! i)"
    by (simp add: f)
  ultimately show ?thesis by blast
qed

lemma run_of_results:
  assumes "runFolds classifier xs ys (foldsOfRun e ys) [0..<5] = Inr foldResults"
  shows "runCrossValidation e \<nu> classifier timestamp xs ys =
     Inr \<lparr>report = assembleReport timestamp foldResults
                      (map (\<lambda>(name, metric). (name, aggregatedMetric \<nu> (map metric foldResults)))
                           metricNames),
          printedVerdict =
            (if jless (roundedPopulationStd \<nu> (map auc foldResults)) (nearest \<nu> (1 / 20))
             then STABLE else VARIABLE)\<rparr>"
proof -
  from runFolds_results [OF assms] have "length foldResults = 5"
    by (auto dest: list_all2_lengthD)
  then have ne: "foldResults \<noteq> []" by auto
  have l: "length (createStratifiedFolds e ys (nFolds CV_CONFIG)) = 5"
    using length_foldsOfRun [of e ys] by (simp add: foldsOfRun_def)
  have v: "stabilityVerdict \<nu>
             (map (\<lambda>(name, metric). (name, aggregatedMetric \<nu> (map metric foldResults))) metricNames)
           = Inr (if jless (roundedPopulationStd \<nu> (map auc foldResults)) (nearest \<nu> (1 / 20))
                  then STABLE else VARIABLE)"
    by (simp add: stabilityVerdict_def metricNames_def aggregatedMetric_def)
  show ?thesis
    unfolding runCrossValidation_def Let_def l
    using assms by (simp only: foldsOfRun_def aggregate_rounded [OF ne] v sum.case)
qed

lemma results_of_run:
  assumes "runCrossValidation e \<nu> classifier timestamp xs ys = Inr out"
  shows "\<exists>foldResults. runFolds classifier xs ys (foldsOfRun e ys) [0..<5] = Inr foldResults"
proof -
  have l: "length (createStratifiedFolds e ys (nFolds CV_CONFIG)) = 5"
    using length_foldsOfRun [of e ys] by (simp add: foldsOfRun_def)
  from assms show ?thesis
    unfolding runCrossValidation_def Let_def l foldsOfRun_def
    by (auto split: sum.splits)
qed

section \<open>Runs with a fold that lacks a class\<close>

text \<open>
  Claim C3, as amended. No check of the classes of a fold and no \<^verbatim>\<open>DegenerateFoldError\<close>
  exists. On an engine whose sort rearranges, with one label for each feature row, a
  classifier that answers with one prediction for each test row, and at least five samples
  of one class (so that no fold is empty), the run completes: it returns a report with the
  five results of the folds held out, in fold order. The result of every fold whose test
  labels lack a class has the AUC \<^verbatim>\<open>NaN\<close>; and when there is such a fold, the
  aggregated mean and standard deviation of the AUC are \<^verbatim>\<open>NaN\<close> and the verdict
  printed is \<open>VARIABLE\<close>.
\<close>

theorem degenerate_folds_do_not_stop_the_run:
  assumes "rearranges e" and "length xs = length ys" and "onePredictionPerRow classifier"
    and "5 \<le> length (filter (\<lambda>l. l = 1) ys) \<or> 5 \<le> length (filter (\<lambda>l. l \<noteq> 1) ys)"
  shows "\<exists>foldResults aggregated v.
           runCrossValidation e \<nu> classifier timestamp xs ys =
             Inr \<lparr>report = assembleReport timestamp foldResults aggregated, printedVerdict = v\<rparr>
         \<and> length foldResults = 5
         \<and> (\<forall>i < 5. heldOut classifier xs ys (foldsOfRun e ys) i = Inr (foldResults ! i)
                \<and> (lacksClass (testLabels ys (foldsOfRun e ys) i) \<longrightarrow>
                     auc (foldResults ! i) = NaN))
         \<and> aggregate \<nu> metricNames foldResults = Inr aggregated
         \<and> ((\<exists>i < 5. lacksClass (testLabels ys (foldsOfRun e ys) i)) \<longrightarrow>
               map_of aggregated ''auc''
                 = Some \<lparr>mean = NaN, std = NaN, values' = map auc foldResults\<rparr>
             \<and> v = VARIABLE)"
proof -
  let ?folds = "foldsOfRun e ys"
  from runFolds_well_formed [OF assms] obtain frs where
    r: "runFolds classifier xs ys ?folds [0..<5] = Inr frs"
    and l: "length frs = 5"
    and h: "\<And>i. i < 5 \<Longrightarrow> heldOut classifier xs ys ?folds i = Inr (frs ! i)"
    by blast
  let ?agg = "map (\<lambda>(name, metric). (name, aggregatedMetric \<nu> (map metric frs))) metricNames"
  let ?v = "if jless (roundedPopulationStd \<nu> (map auc frs)) (nearest \<nu> (1 / 20))
            then STABLE else VARIABLE"
  from l have ne: "frs \<noteq> []" by auto
  have run: "runCrossValidation e \<nu> classifier timestamp xs ys =
             Inr \<lparr>report = assembleReport timestamp frs ?agg, printedVerdict = ?v\<rparr>"
    by (rule run_of_results [OF r])
  have a: "aggregate \<nu> metricNames frs = Inr ?agg" by (rule aggregate_rounded [OF ne])
  have d: "auc (frs ! i) = NaN" if "i < 5" "lacksClass (testLabels ys ?folds i)" for i
    using heldOut_degenerate [OF assms(3) that(2) h [OF that(1)]] .
  have n: "map_of ?agg ''auc'' = Some \<lparr>mean = NaN, std = NaN, values' = map auc frs\<rparr> \<and> ?v = VARIABLE"
    if "\<exists>i < 5. lacksClass (testLabels ys ?folds i)"
  proof -
    from that obtain i where i: "i < 5" and "lacksClass (testLabels ys ?folds i)" by blast
    then have "auc (frs ! i) = NaN" by (rule d)
    with i l have "NaN \<in> set (map auc frs)" by (metis image_eqI nth_mem set_map)
    from aggregatedMetric_NaN [OF this, of \<nu>] show ?thesis
      by (simp add: metricNames_def aggregatedMetric_def)
  qed
  show ?thesis
    apply (rule exI [of _ frs])
    apply (rule exI [of _ ?agg])
    apply (rule exI [of _ ?v])
    using run l h d a n apply blast
    done
qed

lemma onePredictionPerRow_firstFeature: "onePredictionPerRow firstFeature"
  by (simp add: onePredictionPerRow_def firstFeature_def)

text \<open>Five samples, all negative and all alike, on the reference engine.\<close>

theorem degenerate_folds_do_not_stop_the_run_witness:
  "rearranges referenceEngine \<and> onePredictionPerRow firstFeature
   \<and> 5 \<le> length (filter (\<lambda>l. l \<noteq> 1) (replicate 5 (0 :: real)))
   \<and> (\<exists>foldResults aggregated v.
           runCrossValidation referenceEngine exactNumerics firstFeature
               ''2026-01-01T00:00:00.000Z'' (replicate 5 [0.25]) (replicate 5 0) =
             Inr \<lparr>report = assembleReport ''2026-01-01T00:00:00.000Z'' foldResults aggregated,
                  printedVerdict = v\<rparr>
         \<and> length foldResults = 5
         \<and> (\<forall>i < 5. heldOut firstFeature (replicate 5 [0.25]) (replicate 5 0)
                        (foldsOfRun referenceEngine (replicate 5 0)) i = Inr (foldResults ! i)
                \<and> (lacksClass (testLabels (replicate 5 0)
                                  (foldsOfRun referenceEngine (replicate 5 0)) i) \<longrightarrow>
                     auc (foldResults ! i) = NaN))
         \<and> aggregate exactNumerics metricNames foldResults = Inr aggregated
         \<and> ((\<exists>i < 5. lacksClass (testLabels (replicate 5 0)
                                  (foldsOfRun referenceEngine (replicate 5 0)) i)) \<longrightarrow>
               map_of aggregated ''auc''
                 = Some \<lparr>mean = NaN, std = NaN, values' = map auc foldResults\<rparr>
             \<and> v = VARIABLE))"
proof -
  have l: "length (replicate 5 [0.25 :: real]) = length (replicate 5 (0 :: real))" by simp
  have n: "5 \<le> length (filter (\<lambda>l. l = 1) (replicate 5 (0 :: real)))
         \<or> 5 \<le> length (filter (\<lambda>l. l \<noteq> 1) (replicate 5 (0 :: real)))" by simp
  have n': "5 \<le> length (filter (\<lambda>l. l \<noteq> 1) (replicate 5 (0 :: real)))" by simp
  from degenerate_folds_do_not_stop_the_run
         [OF rearranges_referenceEngine l onePredictionPerRow_firstFeature n,
          of exactNumerics "''2026-01-01T00:00:00.000Z''"]
    rearranges_referenceEngine onePredictionPerRow_firstFeature n'
  show ?thesis by (intro conjI)
qed

text \<open>The same run, evaluated: every fold holds one sample.\<close>

lemma folds_all_negative:
  "createStratifiedFolds referenceEngine [0, 0, 0, 0, 0] 5 =
     [\<lparr>indices = [1], positive = 0, negative = 1\<rparr>,
      \<lparr>indices = [3], positive = 0, negative = 1\<rparr>,
      \<lparr>indices = [2], positive = 0, negative = 1\<rparr>,
      \<lparr>indices = [0], positive = 0, negative = 1\<rparr>,
      \<lparr>indices = [4], positive = 0, negative = 1\<rparr>]"
  by code_simp

lemma foldsOfRun_all_negative:
  "foldsOfRun referenceEngine (replicate 5 0) =
     [\<lparr>indices = [1], positive = 0, negative = 1\<rparr>,
      \<lparr>indices = [3], positive = 0, negative = 1\<rparr>,
      \<lparr>indices = [2], positive = 0, negative = 1\<rparr>,
      \<lparr>indices = [0], positive = 0, negative = 1\<rparr>,
      \<lparr>indices = [4], positive = 0, negative = 1\<rparr>]"
proof -
  have r: "replicate 5 (0 :: real) = [0, 0, 0, 0, 0]" by (simp add: eval_nat_numeral)
  show ?thesis unfolding foldsOfRun_def nFolds_CV_CONFIG r by (rule folds_all_negative)
qed

lemma runFolds_all_negative:
  "runFolds firstFeature (replicate 5 [0.25]) (replicate 5 0)
     (foldsOfRun referenceEngine (replicate 5 0)) [0..<5]
   = Inr (replicate 5 allNegativeResult)"
  unfolding foldsOfRun_all_negative
  by (simp add: runFold_def splitByIndices_def firstFeature_def evaluateFold_unfold
      allNegativeResult_def eval_nat_numeral)

lemma aggregated_all_negative:
  "map (\<lambda>(name, metric).
          (name, aggregatedMetric exactNumerics (map metric (replicate 5 allNegativeResult))))
       metricNames =
     [(''accuracy'', \<lparr>mean = Num 1, std = Num 0, values' = replicate 5 (Num 1)\<rparr>),
      (''precision'', \<lparr>mean = Num 0, std = Num 0, values' = replicate 5 (Num 0)\<rparr>),
      (''recall'', \<lparr>mean = Num 0, std = Num 0, values' = replicate 5 (Num 0)\<rparr>),
      (''f1'', \<lparr>mean = Num 0, std = Num 0, values' = replicate 5 (Num 0)\<rparr>),
      (''specificity'', \<lparr>mean = Num 1, std = Num 0, values' = replicate 5 (Num 1)\<rparr>),
      (''auc'', \<lparr>mean = NaN, std = NaN, values' = replicate 5 NaN\<rparr>)]"
  by (simp add: metricNames_def aggregatedMetric_def roundedMean_def roundedSum_def
      roundedPopulationStd_def allNegativeResult_def jnat_def fdiv_def fsub_def jsub_def
      eval_nat_numeral)

text \<open>
  Claim C3 as stated asks that a run with a fold whose test labels lack a class fails with
  a \<^verbatim>\<open>DegenerateFoldError\<close>, and that no AUC of such a fold reaches the results. On
  five negative samples every fold lacks the positive class, and the run completes: it
  returns its report, with the AUC \<^verbatim>\<open>NaN\<close> in each of the five fold results and in
  the aggregated mean and standard deviation, and prints the verdict \<open>VARIABLE\<close>. The
  arithmetic of this run meets only small integers and \<^verbatim>\<open>NaN\<close>, so rounding changes
  none of its numbers.
\<close>

theorem run_with_degenerate_folds_completes:
  "runCrossValidation referenceEngine exactNumerics firstFeature ''2026-01-01T00:00:00.000Z''
       (replicate 5 [0.25]) (replicate 5 0)
   = Inr \<lparr>report =
            assembleReport ''2026-01-01T00:00:00.000Z'' (replicate 5 allNegativeResult)
              [(''accuracy'', \<lparr>mean = Num 1, std = Num 0, values' = replicate 5 (Num 1)\<rparr>),
               (''precision'', \<lparr>mean = Num 0, std = Num 0, values' = replicate 5 (Num 0)\<rparr>),
               (''recall'', \<lparr>mean = Num 0, std = Num 0, values' = replicate 5 (Num 0)\<rparr>),
               (''f1'', \<lparr>mean = Num 0, std = Num 0, values' = replicate 5 (Num 0)\<rparr>),
               (''specificity'', \<lparr>mean = Num 1, std = Num 0, values' = replicate 5 (Num 1)\<rparr>),
               (''auc'', \<lparr>mean = NaN, std = NaN, values' = replicate 5 NaN\<rparr>)],
          printedVerdict = VARIABLE\<rparr>"
proof -
  have a: "map auc (replicate 5 allNegativeResult) = replicate 5 NaN"
    by (simp add: allNegativeResult_def)
  have "NaN \<in> set (replicate 5 NaN)" by simp
  from aggregatedMetric_NaN [OF this, of exactNumerics]
  have s: "roundedPopulationStd exactNumerics (replicate 5 NaN) = NaN"
    by (simp add: aggregatedMetric_def)
  show ?thesis
    unfolding run_of_results [OF runFolds_all_negative] aggregated_all_negative a s
    by simp
qed

section \<open>No validation of the number of folds\<close>

text \<open>
  Claim C4, as amended. \<^verbatim>\<open>createStratifiedFolds\<close> checks nothing: for every label
  sequence and every integer \<open>k\<close>, also \<open>k < 2\<close> and \<open>k\<close> beyond the number of samples
  of a class, it returns \<open>max k 0\<close> folds. On an engine whose sort rearranges, when \<open>k\<close>
  exceeds the number of positives every fold but the last has the count \<^verbatim>\<open>positive\<close>
  0 and no positive sample among its indices, and likewise for the negatives. Nothing is
  surfaced before training either: a run on fewer than five positives and at least five
  negatives (five being \<^verbatim>\<open>CV_CONFIG.nFolds\<close>) trains and evaluates its folds and
  returns its report.
\<close>

theorem createStratifiedFolds_unvalidated:
  "length (createStratifiedFolds e labels k) = nat k
   \<and> (rearranges e \<longrightarrow> int (length (filter (\<lambda>l. l = 1) labels)) < k \<longrightarrow>
        (\<forall>i < nat k - 1.
           positive (createStratifiedFolds e labels k ! i) = 0
         \<and> (\<forall>j \<in> set (indices (createStratifiedFolds e labels k ! i)). labels ! j \<noteq> 1)))
   \<and> (rearranges e \<longrightarrow> int (length (filter (\<lambda>l. l \<noteq> 1) labels)) < k \<longrightarrow>
        (\<forall>i < nat k - 1.
           negative (createStratifiedFolds e labels k ! i) = 0
         \<and> (\<forall>j \<in> set (indices (createStratifiedFolds e labels k ! i)). labels ! j = 1)))
   \<and> (rearranges e \<longrightarrow> length xs = length labels \<longrightarrow> onePredictionPerRow classifier \<longrightarrow>
        length (filter (\<lambda>l. l = 1) labels) < 5 \<longrightarrow> 5 \<le> length (filter (\<lambda>l. l \<noteq> 1) labels) \<longrightarrow>
        (\<exists>out. runCrossValidation e \<nu> classifier timestamp xs labels = Inr out))"
proof -
  have c: "\<exists>out. runCrossValidation e \<nu> classifier timestamp xs labels = Inr out"
    if "rearranges e" "length xs = length labels" "onePredictionPerRow classifier"
      "5 \<le> length (filter (\<lambda>l. l \<noteq> 1) labels)"
  proof -
    from that(4) have "5 \<le> length (filter (\<lambda>l. l = 1) labels)
        \<or> 5 \<le> length (filter (\<lambda>l. l \<noteq> 1) labels)" by simp
    from runFolds_well_formed [OF that(1,2,3) this] obtain frs where
      "runFolds classifier xs labels (foldsOfRun e labels) [0..<5] = Inr frs" by blast
    from run_of_results [OF this, of \<nu> timestamp] show ?thesis by blast
  qed
  show ?thesis
    using length_createStratifiedFolds [of e labels k]
      fold_without_positives [of e labels k] fold_without_negatives [of e labels k] c
    by blast
qed

text \<open>One sample of a class among six, in three folds, and a run on one positive.\<close>

theorem createStratifiedFolds_unvalidated_witness:
  "rearranges referenceEngine \<and> onePredictionPerRow firstFeature
   \<and> length (createStratifiedFolds referenceEngine [1, 0, 0, 0, 0, 0] 3) = 3
   \<and> positive (createStratifiedFolds referenceEngine [1, 0, 0, 0, 0, 0] 3 ! 0) = 0
   \<and> positive (createStratifiedFolds referenceEngine [1, 0, 0, 0, 0, 0] 3 ! 1) = 0
   \<and> list_all (\<lambda>j. [1, 0, 0, 0, 0, 0 :: real] ! j \<noteq> 1)
         (indices (createStratifiedFolds referenceEngine [1, 0, 0, 0, 0, 0] 3 ! 0))
   \<and> list_all (\<lambda>j. [1, 0, 0, 0, 0, 0 :: real] ! j \<noteq> 1)
         (indices (createStratifiedFolds referenceEngine [1, 0, 0, 0, 0, 0] 3 ! 1))
   \<and> negative (createStratifiedFolds referenceEngine [0, 1, 1, 1, 1, 1] 3 ! 0) = 0
   \<and> list_all (\<lambda>j. [0, 1, 1, 1, 1, 1 :: real] ! j = 1)
         (indices (createStratifiedFolds referenceEngine [0, 1, 1, 1, 1, 1] 3 ! 0))
   \<and> (\<exists>out. runCrossValidation referenceEngine exactNumerics firstFeature
                ''2026-01-01T00:00:00.000Z''
                [[0.75], [0.25], [0.25], [0.25], [0.25], [0.25]] [1, 0, 0, 0, 0, 0] = Inr out)"
proof -
  note r = rearranges_referenceEngine
  note c = onePredictionPerRow_firstFeature
  note t = createStratifiedFolds_unvalidated
             [of referenceEngine "[1, 0, 0, 0, 0, 0]" 3
                 "[[0.75], [0.25], [0.25], [0.25], [0.25], [0.25]]" firstFeature exactNumerics
                 "''2026-01-01T00:00:00.000Z''"]
  note u = createStratifiedFolds_unvalidated [of referenceEngine "[0, 1, 1, 1, 1, 1]" 3]
  have p: "int (length (filter (\<lambda>l. l = 1) [1, 0, 0, 0, 0, 0 :: real])) < 3" by simp
  have n: "int (length (filter (\<lambda>l. l \<noteq> 1) [0, 1, 1, 1, 1, 1 :: real])) < 3" by simp
  have i0: "(0 :: nat) < nat 3 - 1" and i1: "(1 :: nat) < nat 3 - 1" by simp_all
  from t have len: "length (createStratifiedFolds referenceEngine [1, 0, 0, 0, 0, 0] 3) = 3"
    by simp
  note tp = t [THEN conjunct2, THEN conjunct1, rule_format, OF r p]
  note un = u [THEN conjunct2, THEN conjunct2, THEN conjunct1, rule_format, OF r n]
  have run: "\<exists>out. runCrossValidation referenceEngine exactNumerics firstFeature
                ''2026-01-01T00:00:00.000Z''
                [[0.75], [0.25], [0.25], [0.25], [0.25], [0.25]] [1, 0, 0, 0, 0, 0] = Inr out"
    by (rule t [THEN conjunct2, THEN conjunct2, THEN conjunct2, rule_format, OF r _ c]) simp_all
  from r c len tp [OF i0, THEN conjunct1] tp [OF i1, THEN conjunct1]
    tp [OF i0, THEN conjunct2] tp [OF i1, THEN conjunct2]
    un [OF i0, THEN conjunct1] un [OF i0, THEN conjunct2] run
  show ?thesis
    unfolding list_all_iff by (intro conjI)
qed

text \<open>
  Claim C4 as stated asks for an \<^verbatim>\<open>InvalidConfiguration\<close> failure when \<open>k < 2\<close> or
  when \<open>k\<close> exceeds the positives or the negatives. On the labels \<open>[1, 0]\<close> the code
  returns one fold holding both samples for \<open>k = 1\<close>, and for \<open>k = 3\<close> two empty folds
  followed by a fold holding both samples.
\<close>

theorem createStratifiedFolds_unchecked:
  "createStratifiedFolds referenceEngine [1, 0] 1
     = [\<lparr>indices = [0, 1], positive = 1, negative = 1\<rparr>]
   \<and> createStratifiedFolds referenceEngine [1, 0] 3
     = [\<lparr>indices = [], positive = 0, negative = 0\<rparr>,
        \<lparr>indices = [], positive = 0, negative = 0\<rparr>,
        \<lparr>indices = [0, 1], positive = 1, negative = 1\<rparr>]"
  by code_simp

section \<open>The shape of the report\<close>

text \<open>
  Claim C9, as amended. The report of a run that completes has exactly the fields
  \<^verbatim>\<open>config\<close>, \<^verbatim>\<open>timestamp\<close>, \<^verbatim>\<open>folds\<close> and \<^verbatim>\<open>aggregated\<close>: the configuration,
  the timestamp, the five fold results, the \<open>i\<close>-th being the result of fold \<open>i\<close> held
  out, and, for each of the six metric names in their order, an object holding \<^verbatim>\<open>mean\<close>
  and \<^verbatim>\<open>std\<close> of \<^verbatim>\<open>calculateStats\<close> for that metric and nothing else. The verdict is
  printed and is not a field of the report.
\<close>

theorem report_shape:
  assumes "runCrossValidation e \<nu> classifier timestamp xs ys = Inr out"
  shows "objKeys (report out) = [''config'', ''timestamp'', ''folds'', ''aggregated'']
       \<and> objGet ''config'' (report out) = Some configValue
       \<and> objGet ''timestamp'' (report out) = Some (JString timestamp)
       \<and> (\<exists>foldResults aggregated.
             length foldResults = 5
           \<and> (\<forall>i < 5. heldOut classifier xs ys (foldsOfRun e ys) i = Inr (foldResults ! i))
           \<and> objGet ''folds'' (report out) = Some (JArray (map metricsValue foldResults))
           \<and> list_all2 (\<lambda>(name, metric) (key, s).
                           key = name \<and> calculateStats \<nu> metric foldResults = Inr s)
                        metricNames aggregated
           \<and> objGet ''aggregated'' (report out) =
                Some (JObject (map (\<lambda>(key, val).
                                      (key, JObject [(''mean'', JNumber (mean val)),
                                                     (''std'', JNumber (std val))]))
                                   aggregated))
           \<and> stabilityVerdict \<nu> aggregated = Inr (printedVerdict out))"
proof -
  let ?folds = "foldsOfRun e ys"
  from results_of_run [OF assms] obtain frs where
    r: "runFolds classifier xs ys ?folds [0..<5] = Inr frs" by blast
  let ?agg = "map (\<lambda>(name, metric). (name, aggregatedMetric \<nu> (map metric frs))) metricNames"
  let ?v = "if jless (roundedPopulationStd \<nu> (map auc frs)) (nearest \<nu> (1 / 20))
            then STABLE else VARIABLE"
  from run_of_results [OF r, of \<nu> timestamp] assms
  have o: "out = \<lparr>report = assembleReport timestamp frs ?agg, printedVerdict = ?v\<rparr>" by simp
  from runFolds_results [OF r]
  have la: "list_all2 (\<lambda>i m. runFold classifier xs ys ?folds i = Inr m) [0..<5] frs" .
  then have n: "length frs = 5" by (auto dest: list_all2_lengthD)
  then have ne: "frs \<noteq> []" by auto
  have h: "heldOut classifier xs ys ?folds i = Inr (frs ! i)" if "i < 5" for i
  proof -
    from la that have "runFold classifier xs ys ?folds ([0..<5] ! i) = Inr (frs ! i)"
      by (auto simp add: list_all2_conv_all_nth simp del: upt_Suc)
    with that have "runFold classifier xs ys ?folds i = Inr (frs ! i)" by simp
    with that show ?thesis by (intro runFold_heldOut) (simp_all add: length_foldsOfRun)
  qed
  have k: "list_all2 (\<lambda>(name, metric) (key, s).
                           key = name \<and> calculateStats \<nu> metric frs = Inr s)
                        metricNames ?agg"
    by (simp add: list_all2_map2 list.rel_refl_strong calculateStats_rounded [OF ne] split_def)
  have v: "stabilityVerdict \<nu> ?agg = Inr ?v"
    by (simp add: stabilityVerdict_def metricNames_def aggregatedMetric_def)
  have h1: "objKeys (report out) = [''config'', ''timestamp'', ''folds'', ''aggregated'']"
    and h2: "objGet ''config'' (report out) = Some configValue"
    and h3: "objGet ''timestamp'' (report out) = Some (JString timestamp)"
    and h4: "objGet ''folds'' (report out) = Some (JArray (map metricsValue frs))"
    and h5: "objGet ''aggregated'' (report out) =
                Some (JObject (map (\<lambda>(key, val).
                                      (key, JObject [(''mean'', JNumber (mean val)),
                                                     (''std'', JNumber (std val))]))
                                   ?agg))"
    and h6: "stabilityVerdict \<nu> ?agg = Inr (printedVerdict out)"
    by (simp_all only: o v assembleReport_def outcome.simps objKeys.simps objGet.simps
        list.map fst_conv map_of.simps split: if_splits) simp_all
  show ?thesis
    apply (intro conjI)
       apply (rule h1)
      apply (rule h2)
     apply (rule h3)
    apply (rule exI [of _ frs])
    apply (rule exI [of _ ?agg])
    using n h h4 k h5 h6 apply blast
    done
qed

text \<open>
  Ten samples, positives and negatives alternating, the feature of each telling its class:
  every fold holds one positive and one negative. Every metric of every fold is 0 or 1, so
  rounding changes none of the numbers of the aggregation.
\<close>

lemma folds_balanced:
  "createStratifiedFolds referenceEngine [1, 0, 1, 0, 1, 0, 1, 0, 1, 0] 5 =
     [\<lparr>indices = [0, 3], positive = 1, negative = 1\<rparr>,
      \<lparr>indices = [4, 7], positive = 1, negative = 1\<rparr>,
      \<lparr>indices = [2, 5], positive = 1, negative = 1\<rparr>,
      \<lparr>indices = [6, 1], positive = 1, negative = 1\<rparr>,
      \<lparr>indices = [8, 9], positive = 1, negative = 1\<rparr>]"
  by code_simp

lemma runFolds_balanced:
  "runFolds firstFeature
     [[0.9], [0.1], [0.9], [0.1], [0.9], [0.1], [0.9], [0.1], [0.9], [0.1]]
     [1, 0, 1, 0, 1, 0, 1, 0, 1, 0]
     (foldsOfRun referenceEngine [1, 0, 1, 0, 1, 0, 1, 0, 1, 0]) [0..<5]
   = Inr (replicate 5 balancedResult)"
  unfolding foldsOfRun_def nFolds_CV_CONFIG folds_balanced
  by (simp add: runFold_def splitByIndices_def firstFeature_def evaluateFold_unfold
      balancedResult_def eval_nat_numeral)

lemma aggregated_balanced:
  "map (\<lambda>(name, metric).
          (name, aggregatedMetric exactNumerics (map metric (replicate 5 balancedResult))))
       metricNames = balancedAggregated"
  by (simp add: metricNames_def aggregatedMetric_def roundedMean_def roundedSum_def
      roundedPopulationStd_def balancedResult_def balancedAggregated_def jnat_def fdiv_def
      fsub_def jsub_def eval_nat_numeral)

lemma run_balanced:
  "runCrossValidation referenceEngine exactNumerics firstFeature ''2026-01-01T00:00:00.000Z''
     [[0.9], [0.1], [0.9], [0.1], [0.9], [0.1], [0.9], [0.1], [0.9], [0.1]]
     [1, 0, 1, 0, 1, 0, 1, 0, 1, 0]
   = Inr \<lparr>report = assembleReport ''2026-01-01T00:00:00.000Z'' (replicate 5 balancedResult)
                      balancedAggregated,
          printedVerdict = STABLE\<rparr>"
proof -
  have s: "roundedPopulationStd exactNumerics (map auc (replicate 5 balancedResult)) = Num 0"
    by (simp add: balancedResult_def roundedPopulationStd_def roundedMean_def roundedSum_def
        jnat_def fdiv_def fsub_def jsub_def eval_nat_numeral)
  show ?thesis
    unfolding run_of_results [OF runFolds_balanced] aggregated_balanced s
    by simp
qed

text \<open>The run on the ten alternating samples completes, and its report has this shape.\<close>

theorem report_shape_witness:
  "objKeys (assembleReport ''2026-01-01T00:00:00.000Z'' (replicate 5 balancedResult)
              balancedAggregated)
     = [''config'', ''timestamp'', ''folds'', ''aggregated'']
   \<and> objGet ''timestamp'' (assembleReport ''2026-01-01T00:00:00.000Z''
                               (replicate 5 balancedResult) balancedAggregated)
     = Some (JString ''2026-01-01T00:00:00.000Z'')
   \<and> runCrossValidation referenceEngine exactNumerics firstFeature ''2026-01-01T00:00:00.000Z''
       [[0.9], [0.1], [0.9], [0.1], [0.9], [0.1], [0.9], [0.1], [0.9], [0.1]]
       [1, 0, 1, 0, 1, 0, 1, 0, 1, 0]
     = Inr \<lparr>report = assembleReport ''2026-01-01T00:00:00.000Z'' (replicate 5 balancedResult)
                        balancedAggregated,
            printedVerdict = STABLE\<rparr>
   \<and> (\<exists>foldResults.
         length foldResults = 5
       \<and> (\<forall>i < 5. heldOut firstFeature
                      [[0.9], [0.1], [0.9], [0.1], [0.9], [0.1], [0.9], [0.1], [0.9], [0.1]]
                      [1, 0, 1, 0, 1, 0, 1, 0, 1, 0]
                      (foldsOfRun referenceEngine [1, 0, 1, 0, 1, 0, 1, 0, 1, 0]) i
                    = Inr (foldResults ! i))
       \<and> objGet ''folds'' (assembleReport ''2026-01-01T00:00:00.000Z''
                              (replicate 5 balancedResult) balancedAggregated)
           = Some (JArray (map metricsValue foldResults)))"
proof -
  note t = report_shape [OF run_balanced]
  from t have 1: "objKeys (assembleReport ''2026-01-01T00:00:00.000Z'' (replicate 5 balancedResult)
              balancedAggregated)
     = [''config'', ''timestamp'', ''folds'', ''aggregated'']"
    and 2: "objGet ''timestamp'' (assembleReport ''2026-01-01T00:00:00.000Z''
                               (replicate 5 balancedResult) balancedAggregated)
     = Some (JString ''2026-01-01T00:00:00.000Z'')"
    by simp_all
  from t [THEN conjunct2, THEN conjunct2, THEN conjunct2]
  have 3: "\<exists>foldResults.
         length foldResults = 5
       \<and> (\<forall>i < 5. heldOut firstFeature
                      [[0.9], [0.1], [0.9], [0.1], [0.9], [0.1], [0.9], [0.1], [0.9], [0.1]]
                      [1, 0, 1, 0, 1, 0, 1, 0, 1, 0]
                      (foldsOfRun referenceEngine [1, 0, 1, 0, 1, 0, 1, 0, 1, 0]) i
                    = Inr (foldResults ! i))
       \<and> objGet ''folds'' (assembleReport ''2026-01-01T00:00:00.000Z''
                              (replicate 5 balancedResult) balancedAggregated)
           = Some (JArray (map metricsValue foldResults))"
    by (simp only: outcome.simps) blast
  from 1 2 run_balanced 3 show ?thesis by (intro conjI)
qed

text \<open>
  Claim C9 as stated puts the raw per-fold values in each aggregated metric and a
  stability verdict in the report. The report of the run on the ten alternating samples
  has the four keys below, none of them a verdict, and each of its aggregated metrics has
  the two keys \<^verbatim>\<open>mean\<close> and \<^verbatim>\<open>std\<close>.
\<close>

theorem report_without_values_and_verdict:
  "map_sum id (objKeys \<circ> report)
     (runCrossValidation referenceEngine exactNumerics firstFeature ''2026-01-01T00:00:00.000Z''
        [[0.9], [0.1], [0.9], [0.1], [0.9], [0.1], [0.9], [0.1], [0.9], [0.1]]
        [1, 0, 1, 0, 1, 0, 1, 0, 1, 0])
     = Inr [''config'', ''timestamp'', ''folds'', ''aggregated'']
   \<and> map_sum id (objGet ''aggregated'' \<circ> report)
     (runCrossValidation referenceEngine exactNumerics firstFeature ''2026-01-01T00:00:00.000Z''
        [[0.9], [0.1], [0.9], [0.1], [0.9], [0.1], [0.9], [0.1], [0.9], [0.1]]
        [1, 0, 1, 0, 1, 0, 1, 0, 1, 0])
     = Inr (Some (JObject
         [(''accuracy'', JObject [(''mean'', JNumber (Num 1)), (''std'', JNumber (Num 0))]),
          (''precision'', JObject [(''mean'', JNumber (Num 1)), (''std'', JNumber (Num 0))]),
          (''recall'', JObject [(''mean'', JNumber (Num 1)), (''std'', JNumber (Num 0))]),
          (''f1'', JObject [(''mean'', JNumber (Num 1)), (''std'', JNumber (Num 0))]),
          (''specificity'', JObject [(''mean'', JNumber (Num 1)), (''std'', JNumber (Num 0))]),
          (''auc'', JObject [(''mean'', JNumber (Num 0)), (''std'', JNumber (Num 0))])]))"
  by (simp add: run_balanced assembleReport_def balancedAggregated_def)

end
